theory Spec2Isabelle
  imports Complex_Main
begin

section \<open>Values and explanation trees\<close>

text \<open>
  The primitive JavaScript values that the score pipeline of \<^verbatim>\<open>src/index.js\<close> stores and
  compares. Reading a property that an object does not have yields \<open>JUndefined\<close>. A
  number is given by the text that JavaScript prints for it, such as \<^verbatim>\<open>10\<close>,
  \<^verbatim>\<open>6.5\<close> or \<^verbatim>\<open>1e+21\<close>: the pipeline never calculates with a score, it only stores
  it, prints it and hands it to \<^verbatim>\<open>parseFloat\<close>, and two numbers of a response are equal
  under \<^verbatim>\<open>===\<close> exactly when they print alike.
\<close>

datatype jsval = JUndefined | JNull | JBool bool | JNum string | JStr string

text \<open>
  One node of the structured explanation: the properties \<^verbatim>\<open>description\<close> and
  \<^verbatim>\<open>value\<close> as they are read (\<open>JUndefined\<close> when the node lacks them), and the
  \<^verbatim>\<open>details\<close> array of child nodes when the node has one. Other properties of a node
  (\<^verbatim>\<open>match\<close>) hold no object and the traversal passes over them.
\<close>

datatype node = Node (description: jsval) (val: jsval) (details: "node list option")

text \<open>A score record is the three-element array \<^verbatim>\<open>[depth, description, value]\<close>.\<close>

type_synonym score_record = "nat \<times> jsval \<times> jsval"

section \<open>The flattener\<close>

text \<open>
  \<^verbatim>\<open>traverseDetails(depth, prodId, item)\<close> called on the \<^verbatim>\<open>details\<close> array itself
  (line 292): the keys of an array are its indices, every element is an object, but no key
  is \<^verbatim>\<open>'details'\<close>, so the body does nothing for each key.
\<close>

definition traverseDetails_array :: "nat \<Rightarrow> node list \<Rightarrow> score_record list \<Rightarrow> score_record list" where
  "traverseDetails_array depth short acc = fold (\<lambda>key acc'. acc') [0..<length short] acc"

text \<open>
  \<^verbatim>\<open>traverseDetails(depth, prodId, item)\<close> on a node; the last argument is
  \<^verbatim>\<open>allDetails[prodId]\<close>, the array the records are pushed to. Only the key
  \<^verbatim>\<open>'details'\<close> holding an object does anything: each child is pushed at
  \<open>depth + 1\<close> and traversed, then the array itself is traversed at \<open>depth\<close>.
\<close>

fun traverseDetails :: "nat \<Rightarrow> node \<Rightarrow> score_record list \<Rightarrow> score_record list" where
  "traverseDetails depth (Node d v dets) acc =
     (case dets of
        None \<Rightarrow> acc
      | Some short \<Rightarrow>
          traverseDetails_array depth short
            (fold (\<lambda>child acc'.
                     traverseDetails (depth + 1) child
                       (acc' @ [(depth + 1, description child, val child)]))
               short acc))"

text \<open>
  Lines 226 to 229 of \<^verbatim>\<open>decomposeSKU\<close>: the record sequence of one scored item starts with
  the root at depth 1, then the traversal appends the rest.
\<close>

definition item_details :: "node \<Rightarrow> score_record list" where
  "item_details item = traverseDetails 1 item ([] @ [(1, description item, val item)])"

subsection \<open>The pre-order listing, as the specification words it\<close>

fun preorder :: "nat \<Rightarrow> node \<Rightarrow> score_record list" where
  "preorder depth (Node d v dets) =
     (depth, d, v) #
     (case dets of None \<Rightarrow> [] | Some cs \<Rightarrow> concat (map (preorder (depth + 1)) cs))"

fun node_count :: "node \<Rightarrow> nat" where
  "node_count (Node d v dets) =
     Suc (case dets of None \<Rightarrow> 0 | Some cs \<Rightarrow> sum_list (map node_count cs))"

text \<open>
  The nodes of a tree in pre-order, each with its depth, the root at \<open>depth\<close>; the
  record of a node; and what makes a node or a record malformed: a missing description or
  value.
\<close>

fun nodes_at :: "nat \<Rightarrow> node \<Rightarrow> (nat \<times> node) list" where
  "nodes_at depth (Node d v dets) =
     (depth, Node d v dets) #
     (case dets of None \<Rightarrow> [] | Some cs \<Rightarrow> concat (map (nodes_at (depth + 1)) cs))"

definition record_of :: "nat \<times> node \<Rightarrow> score_record" where
  "record_of dn = (fst dn, description (snd dn), val (snd dn))"

definition malformed :: "node \<Rightarrow> bool" where
  "malformed n \<longleftrightarrow> description n = JUndefined \<or> val n = JUndefined"

definition malformed_record :: "score_record \<Rightarrow> bool" where
  "malformed_record r \<longleftrightarrow> fst (snd r) = JUndefined \<or> snd (snd r) = JUndefined"

section \<open>Strings\<close>

text \<open>
  The string methods the pipeline calls. \<^verbatim>\<open>s.includes(pat)\<close> is substring search;
  \<^verbatim>\<open>s.split(c)\<close> is only ever called with a separator of one character and always
  returns at least one piece; \<^verbatim>\<open>xs.join(sep)\<close> concatenates with the separator between
  neighbours; \<^verbatim>\<open>s.replace(pat, rep)\<close> with a string pattern replaces the first occurrence
  only (the replacement texts used hold no \<^verbatim>\<open>$\<close>).
\<close>

fun starts_with :: "string \<Rightarrow> string \<Rightarrow> bool" where
  "starts_with s [] = True"
| "starts_with [] (p # ps) = False"
| "starts_with (c # cs) (p # ps) = (c = p \<and> starts_with cs ps)"

fun js_includes :: "string \<Rightarrow> string \<Rightarrow> bool" where
  "js_includes [] pat = (pat = [])"
| "js_includes (c # cs) pat = (starts_with (c # cs) pat \<or> js_includes cs pat)"

fun js_split :: "char \<Rightarrow> string \<Rightarrow> string list" where
  "js_split sep [] = [[]]"
| "js_split sep (c # cs) =
     (if c = sep then [] # js_split sep cs
      else (case js_split sep cs of
              [] \<Rightarrow> [[c]]
            | piece # pieces \<Rightarrow> (c # piece) # pieces))"

fun js_join :: "string \<Rightarrow> string list \<Rightarrow> string" where
  "js_join sep [] = []"
| "js_join sep [x] = x"
| "js_join sep (x # y # ys) = x @ sep @ js_join sep (y # ys)"

fun js_replace :: "string \<Rightarrow> string \<Rightarrow> string \<Rightarrow> string" where
  "js_replace pat rep [] = (if pat = [] then rep else [])"
| "js_replace pat rep (c # cs) =
     (if starts_with (c # cs) pat then rep @ drop (length pat) (c # cs)
      else c # js_replace pat rep cs)"

text \<open>\<^verbatim>\<open>xs[i]\<close> on an array of strings: \<open>None\<close> stands for \<^verbatim>\<open>undefined\<close>.\<close>

definition at_index :: "'a list \<Rightarrow> nat \<Rightarrow> 'a option" where
  "at_index xs i = (if i < length xs then Some (xs ! i) else None)"

text \<open>The conversion of a template literal \<^verbatim>\<open>`${v}`\<close> and of string concatenation.\<close>

fun js_string :: "jsval \<Rightarrow> string" where
  "js_string JUndefined = ''undefined''"
| "js_string JNull = ''null''"
| "js_string (JBool b) = (if b then ''true'' else ''false'')"
| "js_string (JNum printed) = printed"
| "js_string (JStr s) = s"

text \<open>
  What \<^verbatim>\<open>el.textContent = v\<close> stores: \<^verbatim>\<open>null\<close> and \<^verbatim>\<open>undefined\<close> give the
  empty text, everything else its string.
\<close>

fun text_content :: "jsval \<Rightarrow> string" where
  "text_content JUndefined = []"
| "text_content JNull = []"
| "text_content v = js_string v"

section \<open>The score list of one card\<close>

text \<open>
  The element that \<^verbatim>\<open>createScoreDetail\<close> builds for one record, a \<^verbatim>\<open>details\<close> element:
  the number of its class \<^verbatim>\<open>indent-N\<close>, the classes added to it afterwards, the text of
  its \<^verbatim>\<open>p.detail-desc\<close> and of its \<^verbatim>\<open>p.detail-val\<close>, and the \<^verbatim>\<open>details\<close> elements
  appended to it. The only classes ever added to such an element hold no hyphen, so
  \<^verbatim>\<open>parseInt(el.classList.value.split("-")[1])\<close> reads \<open>indent\<close> back.
\<close>

datatype element =
  Details (indent: nat) (classes: "string list") (desc_text: string) (val_text: string)
    (kids: "element list")

text \<open>Exceptions, and the roles of the closed set.\<close>

datatype exn = TypeError | SyntaxError | InvalidCharacterError

datatype role = Boost | Idf | Tf | WeightAggregate | MaxAggregate | QueryConstant | Plain

text \<open>
  The part of the page that classification writes to: the class list of the card being
  built, the class list of its parent (the section of the product), and the ids of the
  checkboxes in \<^verbatim>\<open>#checklist\<close>, which is the boost registry.
\<close>

record page =
  card_classes :: "string list"
  container_classes :: "string list"
  checklist :: "string list"

text \<open>
  \<^verbatim>\<open>classList.add(token)\<close>. The list refuses an empty token with a
  \<^verbatim>\<open>SyntaxError\<close> and a token that holds ASCII white space (tab, line feed, form feed,
  carriage return, blank) with an \<^verbatim>\<open>InvalidCharacterError\<close>, before it changes; it
  holds each token once.
\<close>

definition ascii_whitespace :: "char \<Rightarrow> bool" where
  "ascii_whitespace c \<longleftrightarrow> c \<in> set [CHR 0x09, CHR 0x0A, CHR 0x0C, CHR 0x0D, CHR 0x20]"

definition token_error :: "string \<Rightarrow> exn option" where
  "token_error token =
     (if token = [] then Some SyntaxError
      else if list_ex ascii_whitespace token then Some InvalidCharacterError
      else None)"

definition token_insert :: "string \<Rightarrow> string list \<Rightarrow> string list" where
  "token_insert token cls = (if token \<in> set cls then cls else cls @ [token])"

definition classList_add :: "string \<Rightarrow> string list \<Rightarrow> exn + string list" where
  "classList_add token cls =
     (case token_error token of
        Some err \<Rightarrow> Inl err
      | None \<Rightarrow> Inr (token_insert token cls))"

definition createScoreDetail :: "score_record \<Rightarrow> element" where
  "createScoreDetail scoreDetail =
     Details (fst scoreDetail) [] (text_content (fst (snd scoreDetail)))
       (text_content (snd (snd scoreDetail))) []"

subsection \<open>Places in the list\<close>

text \<open>
  An element of the list is named by its path: the positions to follow from the container
  (the \<^verbatim>\<open>article\<close>) down to it. Appending never moves an element, so a path stays valid.
\<close>

fun get_at :: "element list \<Rightarrow> nat list \<Rightarrow> element option" where
  "get_at forest [] = None"
| "get_at forest [i] = at_index forest i"
| "get_at forest (i # j # p) =
     (case at_index forest i of None \<Rightarrow> None | Some el \<Rightarrow> get_at (kids el) (j # p))"

fun update_at :: "(element \<Rightarrow> element) \<Rightarrow> nat list \<Rightarrow> element list \<Rightarrow> element list" where
  "update_at f [] forest = forest"
| "update_at f [i] forest = (if i < length forest then forest[i := f (forest ! i)] else forest)"
| "update_at f (i # j # p) forest =
     (if i < length forest
      then forest[i := (case forest ! i of
                          Details n cl d v ks \<Rightarrow> Details n cl d v (update_at f (j # p) ks))]
      else forest)"

text \<open>\<^verbatim>\<open>parent.appendChild(drop)\<close>, with the container itself at the empty path.\<close>

definition append_child :: "nat list \<Rightarrow> element \<Rightarrow> element list \<Rightarrow> element list" where
  "append_child p drop' forest =
     (if p = [] then forest @ [drop']
      else update_at (\<lambda>el. case el of Details n cl d v ks \<Rightarrow> Details n cl d v (ks @ [drop'])) p forest)"

text \<open>
  The last entry of \<^verbatim>\<open>x.querySelectorAll('details')\<close>: the last element in document order
  below \<open>x\<close>, found by following last children; \<open>None\<close> when \<open>x\<close> holds no
  \<^verbatim>\<open>details\<close>.
\<close>

function last_details :: "element list \<Rightarrow> nat list option" where
  "last_details forest =
     (if forest = [] then None
      else (case last_details (kids (last forest)) of
              None \<Rightarrow> Some [length forest - 1]
            | Some p \<Rightarrow> Some ((length forest - 1) # p)))"
  by pat_completeness auto

termination
proof (relation "measure (size_list size)")
  show "wf (measure (size_list size))" by simp
next
  fix forest :: "element list"
  assume ne: "forest \<noteq> []"
  have "size_list size (kids el) < size el" for el :: element
    by (cases el) simp
  moreover have "size (last forest) \<le> size_list size forest"
    using ne by (induction forest) auto
  ultimately have "size_list size (kids (last forest)) < size_list size forest"
    by (meson less_le_trans)
  then show "(kids (last forest), forest) \<in> measure (size_list size)" by simp
qed

declare last_details.simps [simp del]

text \<open>What the variable \<^verbatim>\<open>parent\<close> of \<^verbatim>\<open>appendScoreDetail\<close> points to.\<close>

datatype cursor = AtArticle | AtDetails "nat list"

definition parentNode :: "nat list \<Rightarrow> cursor" where
  "parentNode p = (if length p \<le> 1 then AtArticle else AtDetails (butlast p))"

text \<open>
  The \<^verbatim>\<open>while (parent)\<close> loop of \<^verbatim>\<open>appendScoreDetail\<close>. The result \<open>Some (Some p)\<close> says
  that the new element is appended to the element at \<open>p\<close>; \<open>Some None\<close> says that the
  loop ended with \<^verbatim>\<open>parent\<close> undefined or null and nothing was appended; \<open>None\<close> says
  that the loop does not end. On the container the class list is \<^verbatim>\<open>content hidden\<close>, the
  depth read from it is \<^verbatim>\<open>NaN\<close>, both comparisons fail, and its \<^verbatim>\<open>parentNode\<close> is
  \<^verbatim>\<open>null\<close>, since the container is attached to the page only later.
  The tests \<^verbatim>\<open>depth < indentLevel - 1\<close> and \<^verbatim>\<open>depth === indentLevel - 1\<close> are written
  with the 1 moved to the left, since a natural number has no \<open>0 - 1\<close>.
\<close>

partial_function (option) appendScoreDetail_loop ::
  "element list \<Rightarrow> nat \<Rightarrow> cursor option \<Rightarrow> nat list option option" where
  "appendScoreDetail_loop forest indentLevel parent =
     (case parent of
        None \<Rightarrow> Some None
      | Some AtArticle \<Rightarrow> appendScoreDetail_loop forest indentLevel None
      | Some (AtDetails p) \<Rightarrow>
          (case get_at forest p of
             None \<Rightarrow> Some None
           | Some el \<Rightarrow>
               if indent el + 1 < indentLevel
               then appendScoreDetail_loop forest indentLevel
                      (map_option (\<lambda>q. AtDetails (p @ q)) (last_details (kids el)))
               else if indent el + 1 = indentLevel then Some (Some p)
               else appendScoreDetail_loop forest indentLevel (Some (parentNode p))))"

declare appendScoreDetail_loop.simps [code]

text \<open>
  \<^verbatim>\<open>appendScoreDetail(dropDownContainer, drop, scoreDetail)\<close>: the new list and the path at
  which \<open>drop'\<close> now sits, \<open>None\<close> when it was appended nowhere.
\<close>

definition appendScoreDetail ::
  "element list \<Rightarrow> element \<Rightarrow> score_record \<Rightarrow> (element list \<times> nat list option) option" where
  "appendScoreDetail forest drop' scoreDetail =
     (case last_details forest of
        None \<Rightarrow> Some (append_child [] drop' forest, Some [length forest])
      | Some l \<Rightarrow>
          (case appendScoreDetail_loop forest (fst scoreDetail) (Some (AtDetails l)) of
             None \<Rightarrow> None
           | Some None \<Rightarrow> Some (forest, None)
           | Some (Some p) \<Rightarrow>
               (case get_at forest p of
                  None \<Rightarrow> Some (forest, None)
                | Some el \<Rightarrow> Some (append_child p drop' forest, Some (p @ [length (kids el)])))))"

subsection \<open>Classification\<close>

text \<open>
  \<^verbatim>\<open>drop.closest('details.scoreweight')\<close>: the element itself or its nearest ancestor with
  the class, looked for along the path, given with the nearest position first. Neither the
  container nor anything above it is a \<^verbatim>\<open>details\<close> element.
\<close>

fun closest_rev :: "element list \<Rightarrow> string \<Rightarrow> nat list \<Rightarrow> element option" where
  "closest_rev forest cls [] = None"
| "closest_rev forest cls (i # up) =
     (case get_at forest (rev (i # up)) of
        None \<Rightarrow> closest_rev forest cls up
      | Some el \<Rightarrow> if cls \<in> set (classes el) then Some el else closest_rev forest cls up)"

definition closest :: "element list \<Rightarrow> nat list \<Rightarrow> string \<Rightarrow> element option" where
  "closest forest p cls = closest_rev forest cls (rev p)"

text \<open>
  The body of the \<^verbatim>\<open>try\<close> of \<^verbatim>\<open>getBoostName\<close>, once the weight element is found, on
  the text \<open>name\<close> of its description. Indexing \<^verbatim>\<open>undefined\<close> raises.
\<close>

definition boostName_of :: "string \<Rightarrow> exn + jsval" where
  "boostName_of name =
     (case at_index (js_split CHR '':'' (hd (js_split CHR '' '' name))) 1 of
        None \<Rightarrow> Inl TypeError
      | Some boostName \<Rightarrow>
          if at_index boostName 0 = Some (CHR 0x22)
          then (case at_index (js_split (CHR 0x22) name) 1 of
                  None \<Rightarrow> Inl TypeError
                | Some quoted \<Rightarrow> Inr (JStr (js_join ''-'' (js_split CHR '' '' quoted))))
          else if boostName = ''true''
          then (case at_index (js_split CHR ''_'' (hd (js_split CHR '':'' name))) 1 of
                  None \<Rightarrow> Inr JUndefined
                | Some field \<Rightarrow> Inr (JStr field))
          else Inr (JStr boostName))"

text \<open>
  \<^verbatim>\<open>getBoostName(drop)\<close>; \<open>drop'\<close> is the path of the element, \<open>None\<close> when the
  element hangs nowhere (it then has no ancestor, and it does not carry the class itself).
  Without a weight element, and after a caught exception, the function returns nothing.
\<close>

definition getBoostName :: "element list \<Rightarrow> nat list option \<Rightarrow> jsval" where
  "getBoostName forest drop' =
     (case drop' of
        None \<Rightarrow> JUndefined
      | Some p \<Rightarrow>
          (case closest forest p ''scoreweight'' of
             None \<Rightarrow> JUndefined
           | Some context \<Rightarrow>
               (case boostName_of (desc_text context) of
                  Inl err \<Rightarrow> JUndefined
                | Inr boostName \<Rightarrow> boostName)))"

text \<open>
  \<^verbatim>\<open>sidebarOption(boost)\<close>: a checkbox with the id \<^verbatim>\<open>check-\<close> and the class name is added
  unless the page has one.
\<close>

definition sidebarOption :: "string \<Rightarrow> page \<Rightarrow> page" where
  "sidebarOption boost pg =
     (if (''check-'' @ boost) \<in> set (checklist pg) then pg
      else pg\<lparr>checklist := checklist pg @ [''check-'' @ boost]\<rparr>)"

text \<open>
  The element at the path with the class \<open>cls\<close> in its list, if it hangs in the list; and
  \<^verbatim>\<open>drop.classList.add(cls)\<close>, which raises on a token that the list refuses, whether
  the element hangs in the list or not.
\<close>

definition mark_at :: "string \<Rightarrow> nat list option \<Rightarrow> element list \<Rightarrow> element list" where
  "mark_at cls drop' forest =
     (case drop' of
        None \<Rightarrow> forest
      | Some p \<Rightarrow>
          update_at (\<lambda>el. case el of Details n cl d v ks \<Rightarrow> Details n (token_insert cls cl) d v ks)
            p forest)"

definition drop_add :: "string \<Rightarrow> nat list option \<Rightarrow> element list \<Rightarrow> exn + element list" where
  "drop_add cls drop' forest =
     (case token_error cls of
        Some err \<Rightarrow> Inl err
      | None \<Rightarrow> Inr (mark_at cls drop' forest))"

text \<open>
  \<^verbatim>\<open>addBoostClass(card, scoreDetail, drop)\<close>. A description that is no string has no
  method \<^verbatim>\<open>includes\<close>, and the call raises before anything is written. For a boost the
  first write is \<^verbatim>\<open>card.classList.add(boostClass)\<close>, which raises on a class name with
  white space; the section of the card gets the same token next, then
  \<^verbatim>\<open>sidebarOption\<close> runs and the element gets its class.
\<close>

definition addBoostClass ::
  "page \<Rightarrow> element list \<Rightarrow> nat list option \<Rightarrow> score_record \<Rightarrow> exn + (page \<times> element list)" where
  "addBoostClass pg forest drop' scoreDetail =
     (let description = fst (snd scoreDetail) in
      if description = JStr ''boost'' then
        (let boostName = getBoostName forest drop';
             boostClass = js_string boostName @ ''-boost-'' @ js_string (snd (snd scoreDetail))
         in case classList_add boostClass (card_classes pg) of
              Inl err \<Rightarrow> Inl err
            | Inr card' \<Rightarrow>
                (case classList_add boostClass (container_classes pg) of
                   Inl err \<Rightarrow> Inl err
                 | Inr container' \<Rightarrow>
                     map_sum id
                       (Pair (sidebarOption boostClass
                                (pg\<lparr>card_classes := card', container_classes := container'\<rparr>)))
                       (drop_add ''scoreboost'' drop' forest)))
      else
        (case description of
           JStr text \<Rightarrow>
             if js_includes text ''idf, computed as''
             then map_sum id (Pair pg) (drop_add ''scoreidf'' drop' forest)
             else if js_includes text ''tf, computed as''
             then map_sum id (Pair pg) (drop_add ''scoretf'' drop' forest)
             else
               (let baseDescription = hd (js_split CHR ''('' text) in
                if baseDescription = ''weight''
                then map_sum id (Pair pg) (drop_add ''scoreweight'' drop' forest)
                else if baseDescription = ''max of:''
                then map_sum id (Pair pg) (drop_add ''scoremax'' drop' forest)
                else if baseDescription = ''query''
                then map_sum id (Pair pg) (drop_add ''scorequery'' drop' forest)
                else Inr (pg, forest))
         | _ \<Rightarrow> Inl TypeError))"

text \<open>
  The loop of \<^verbatim>\<open>scoreList(itemId, card)\<close> over the records of the item: the list built so
  far, the page, and the exception that ended the loop, if one did. \<open>None\<close> says that a
  call of \<^verbatim>\<open>appendScoreDetail\<close> does not return.
\<close>

fun scoreList_loop ::
  "score_record list \<Rightarrow> element list \<Rightarrow> page \<Rightarrow> (element list \<times> page \<times> exn option) option" where
  "scoreList_loop [] forest pg = Some (forest, pg, None)"
| "scoreList_loop (score # item) forest pg =
     (case appendScoreDetail forest (createScoreDetail score) score of
        None \<Rightarrow> None
      | Some (forest', drop') \<Rightarrow>
          (case addBoostClass pg forest' drop' score of
             Inl err \<Rightarrow> Some (forest', pg, Some err)
           | Inr (pg', forest'') \<Rightarrow> scoreList_loop item forest'' pg'))"

definition scoreList :: "score_record list \<Rightarrow> page \<Rightarrow> (element list \<times> page \<times> exn option) option" where
  "scoreList item pg = scoreList_loop item [] pg"

section \<open>The formula\<close>

text \<open>The nested array that \<^verbatim>\<open>scoreFormula\<close> returns: strings and arrays of the same.\<close>

datatype formula = Tok string | Nested "formula list"

text \<open>
  \<^verbatim>\<open>scoreFormula(list, type)\<close> on the \<^verbatim>\<open>details\<close> children of \<open>list\<close>. The first
  \<^verbatim>\<open>p.detail-desc\<close> and \<^verbatim>\<open>p.detail-val\<close> inside a component are its own.
\<close>

fun scoreFormula :: "element list \<Rightarrow> string \<Rightarrow> formula list" where
  "scoreFormula [] type = []"
| "scoreFormula (Details n cl description' val' ks # components) type =
     (if js_includes description' ''product of'' then [Nested (scoreFormula ks ''*'')]
      else if js_includes description' ''sum of''
      then [Tok ''('', Nested (scoreFormula ks ''+''), Tok '')'']
      else if js_includes description' ''weight'' \<and> length description' > 100
      then [Tok val', Tok type, Nested (scoreFormula ks ''&'')]
      else [Tok type, Tok val'])
     @ scoreFormula components type"

text \<open>\<^verbatim>\<open>formula.flat(Infinity)\<close>.\<close>

fun flat :: "formula list \<Rightarrow> string list" where
  "flat [] = []"
| "flat (Tok s # fs) = s # flat fs"
| "flat (Nested g # fs) = flat g @ flat fs"

text \<open>The two replacements at the end of \<^verbatim>\<open>scoreFormulaFormat\<close>.\<close>

definition normalize_parens :: "string \<Rightarrow> string" where
  "normalize_parens formula = js_replace '' )'' '')'' (js_replace ''( + '' ''('' formula)"

definition scoreFormulaFormat :: "formula list \<Rightarrow> string" where
  "scoreFormulaFormat formula = normalize_parens (js_join '' '' (flat formula))"

text \<open>
  The formula that \<^verbatim>\<open>addCard\<close> shows for an item: \<^verbatim>\<open>scoreList\<close> builds the list from
  the records of the item on a new card, and \<^verbatim>\<open>scoreSummary\<close> formats the walk over that
  list, starting with the type \<^verbatim>\<open>' = '\<close>. An exception of \<^verbatim>\<open>scoreList\<close> leaves the
  \<^verbatim>\<open>try\<close> of \<^verbatim>\<open>addCard\<close> before there is a formula.
\<close>

definition new_card :: page where
  "new_card = \<lparr>card_classes = [''product-card''], container_classes = [], checklist = []\<rparr>"

definition item_formula :: "node \<Rightarrow> (exn + string) option" where
  "item_formula item =
     (case scoreList (item_details item) new_card of
        None \<Rightarrow> None
      | Some (forest, pg, Some err) \<Rightarrow> Some (Inl err)
      | Some (forest, pg, None) \<Rightarrow> Some (Inr (scoreFormulaFormat (scoreFormula forest '' = ''))))"

section \<open>The aggregator\<close>

subsection \<open>Objects with string keys\<close>

text \<open>
  \<^verbatim>\<open>allProducts\<close>, \<^verbatim>\<open>allDetails\<close> and the \<^verbatim>\<open>skus\<close> of a product are objects used as
  dictionaries: a list of keys and values in the order in which \<^verbatim>\<open>Object.keys\<close> lists them,
  every key once. That order is: first the keys that are array indices (canonical decimal
  numbers below 4294967295), ascending, then the other keys in the order of their creation.
\<close>

type_synonym 'v obj = "(string \<times> 'v) list"

definition digits_value :: "string \<Rightarrow> nat" where
  "digits_value k = fold (\<lambda>c n. 10 * n + (of_char c - 48)) k 0"

definition is_array_index :: "string \<Rightarrow> bool" where
  "is_array_index k \<longleftrightarrow>
     k \<noteq> [] \<and> list_all (\<lambda>c. c \<in> set ''0123456789'') k \<and> (k = ''0'' \<or> hd k \<noteq> CHR ''0'') \<and>
     digits_value k < 4294967295"

fun insert_index :: "string \<Rightarrow> 'v \<Rightarrow> 'v obj \<Rightarrow> 'v obj" where
  "insert_index k v [] = [(k, v)]"
| "insert_index k v ((k', v') # kvs) =
     (if is_array_index k' \<and> digits_value k' < digits_value k
      then (k', v') # insert_index k v kvs
      else (k, v) # (k', v') # kvs)"

text \<open>
  \<^verbatim>\<open>o[k] = v\<close> for an object or an array \<open>v\<close>. Under the key \<^verbatim>\<open>__proto__\<close> the
  assignment sets the prototype of \<open>o\<close> and makes no property.
\<close>

definition obj_set :: "string \<Rightarrow> 'v \<Rightarrow> 'v obj \<Rightarrow> 'v obj" where
  "obj_set k v kvs =
     (if k = ''__proto__'' then kvs
      else if map_of kvs k \<noteq> None
      then map (\<lambda>(k', v'). if k' = k then (k', v) else (k', v')) kvs
      else if is_array_index k then insert_index k v kvs
      else kvs @ [(k, v)])"

text \<open>
  The names that every object inherits from \<^verbatim>\<open>Object.prototype\<close>. Reading one of them
  from an object that has no property of that name yields a function (the prototype itself
  for \<^verbatim>\<open>__proto__\<close>), which counts as true and has no property \<^verbatim>\<open>skus\<close>.
\<close>

definition inherited_names :: "string list" where
  "inherited_names =
     [''constructor'', ''__defineGetter__'', ''__defineSetter__'', ''hasOwnProperty'',
      ''__lookupGetter__'', ''__lookupSetter__'', ''isPrototypeOf'', ''propertyIsEnumerable'',
      ''toString'', ''valueOf'', ''__proto__'', ''toLocaleString'']"

subsection \<open>The response and the stores\<close>

text \<open>
  One entry of a document's \<^verbatim>\<open>style_order_list\<close>, one document of
  \<^verbatim>\<open>data["response"]["docs"]\<close>, the object \<^verbatim>\<open>data["debug"]\<close> and the response. An
  array or an object that the code indexes is optional: \<open>None\<close> when the response lacks
  it. The images of an entry are its property \<^verbatim>\<open>sku_skuImages\<close>, named
  \<open>entry_skuImages\<close> here to tell it from the document's; \<open>debug_explain\<close> is the
  property \<^verbatim>\<open>explain\<close> of \<^verbatim>\<open>data["debug"]\<close>, in the order of its keys; \<open>docs\<close> is
  \<open>None\<close> when \<^verbatim>\<open>data["response"]\<close> or its \<^verbatim>\<open>docs\<close> is missing, which raise alike.
  On the values of \<open>jsval\<close> the comparison \<^verbatim>\<open>===\<close> is equality.
\<close>

record style_entry =
  sku_id :: jsval
  entry_skuImages :: "jsval list option"

record doc =
  product_id :: jsval
  product_displayName :: jsval
  sku_size :: jsval
  sku_skuImages :: "jsval list option"
  style_order_list :: "style_entry list option"

record debug_info =
  debug_explain :: "node obj option"

record response =
  debug :: "debug_info option"
  docs :: "doc list option"

text \<open>\<^verbatim>\<open>data["debug"]["explain"]\<close>, when both are there.\<close>

definition explain :: "response \<Rightarrow> node obj option" where
  "explain data = (case debug data of None \<Rightarrow> None | Some info \<Rightarrow> debug_explain info)"

record sku =
  skuScore :: jsval
  skuImg :: jsval

record product =
  productId :: jsval
  displayName :: jsval
  size' :: jsval
  prodImg :: jsval
  skus :: "sku obj"

text \<open>The two module variables.\<close>

record store =
  allProducts :: "product obj"
  allDetails :: "score_record list obj"

text \<open>\<^verbatim>\<open>xs[0]\<close> on an array of values: \<^verbatim>\<open>undefined\<close> when the array is empty.\<close>

definition first_image :: "jsval list \<Rightarrow> jsval" where
  "first_image xs = (case xs of [] \<Rightarrow> JUndefined | x # _ \<Rightarrow> x)"

subsection \<open>\<^verbatim>\<open>setData\<close>\<close>

text \<open>
  The inner loop of \<^verbatim>\<open>setData\<close> over \<^verbatim>\<open>skuslist\<close>: the array with the image of the
  entry pushed when an entry has the id, the array as it is otherwise.
\<close>

fun setData_skus :: "style_entry list \<Rightarrow> jsval \<Rightarrow> jsval list \<Rightarrow> exn + jsval list" where
  "setData_skus [] skuId array = Inr array"
| "setData_skus (entry # skuslist) skuId array =
     (if sku_id entry = skuId
      then (case entry_skuImages entry of
              None \<Rightarrow> Inl TypeError
            | Some images \<Rightarrow> Inr (array @ [first_image images]))
      else setData_skus skuslist skuId array)"

text \<open>
  The outer loop over the documents. The result \<open>Inr None\<close> is the \<^verbatim>\<open>undefined\<close> that
  the function returns when no document has the product id.
\<close>

fun setData_docs :: "doc list \<Rightarrow> jsval \<Rightarrow> jsval \<Rightarrow> exn + jsval list option" where
  "setData_docs [] productId' skuId = Inr None"
| "setData_docs (item # rest) productId' skuId =
     (if product_id item = productId'
      then (case sku_skuImages item of
              None \<Rightarrow> Inl TypeError
            | Some images \<Rightarrow>
                (case style_order_list item of
                   None \<Rightarrow> Inl TypeError
                 | Some skuslist \<Rightarrow>
                     (case setData_skus skuslist skuId
                             [product_displayName item, sku_size item, first_image images] of
                        Inl err \<Rightarrow> Inl err
                      | Inr array \<Rightarrow> Inr (Some array))))
      else setData_docs rest productId' skuId)"

definition setData :: "response \<Rightarrow> jsval \<Rightarrow> jsval \<Rightarrow> exn + jsval list option" where
  "setData data productId' skuId =
     (case docs data of
        None \<Rightarrow> Inl TypeError
      | Some ds \<Rightarrow> setData_docs ds productId' skuId)"

subsection \<open>\<^verbatim>\<open>decomposeSKU\<close>\<close>

text \<open>\<^verbatim>\<open>array[i]\<close> on the array that \<^verbatim>\<open>setData\<close> returns.\<close>

definition array_at :: "jsval list \<Rightarrow> nat \<Rightarrow> jsval" where
  "array_at array i = (case at_index array i of None \<Rightarrow> JUndefined | Some v \<Rightarrow> v)"

text \<open>
  The two ids of \<^verbatim>\<open>let [skuId, prodId] = item.split('_')\<close>: the first piece, and the
  second piece or \<^verbatim>\<open>undefined\<close>.
\<close>

definition item_skuId :: "string \<Rightarrow> string" where
  "item_skuId item = hd (js_split CHR ''_'' item)"

definition item_prodId :: "string \<Rightarrow> jsval" where
  "item_prodId item =
     (case at_index (js_split CHR ''_'' item) 1 of None \<Rightarrow> JUndefined | Some p \<Rightarrow> JStr p)"

text \<open>
  The body of the \<^verbatim>\<open>forEach\<close> for the key \<open>item\<close>. An exception comes from
  \<^verbatim>\<open>setData\<close>, or from line 220 when the product id is a name that every object
  inherits: then \<^verbatim>\<open>allProducts[prodId]\<close> counts as true, no product is made, and
  \<^verbatim>\<open>allProducts[prodId]['skus']\<close> is undefined. Either way the stores are not yet
  written.
\<close>

definition decomposeSKU_item :: "response \<Rightarrow> node obj \<Rightarrow> string \<Rightarrow> store \<Rightarrow> exn + store" where
  "decomposeSKU_item data skus' item st =
     (let skuId = item_skuId item; prodId = item_prodId item in
      case map_of skus' item of
        None \<Rightarrow> Inl TypeError
      | Some explanation \<Rightarrow>
          (let value = val explanation in
           case setData data prodId (JStr skuId) of
             Inl err \<Rightarrow> Inl err
           | Inr None \<Rightarrow> Inr st
           | Inr (Some array) \<Rightarrow>
               if map_of (allProducts st) (js_string prodId) = None \<and>
                  js_string prodId \<in> set inherited_names
               then Inl TypeError
               else
               (let products =
                      (if map_of (allProducts st) (js_string prodId) = None
                       then obj_set (js_string prodId)
                              \<lparr>productId = prodId, displayName = array_at array 0,
                               size' = array_at array 1, prodImg = array_at array 2, skus = []\<rparr>
                              (allProducts st)
                       else allProducts st);
                    products' =
                      map (\<lambda>(k, p). if k = js_string prodId
                                      then (k, p\<lparr>skus := obj_set skuId
                                                     \<lparr>skuScore = value, skuImg = array_at array 3\<rparr>
                                                     (skus p)\<rparr>)
                                      else (k, p))
                        products
                in Inr \<lparr>allProducts = products',
                        allDetails = obj_set item (item_details explanation) (allDetails st)\<rparr>)))"

fun decomposeSKU_loop :: "response \<Rightarrow> node obj \<Rightarrow> string list \<Rightarrow> store \<Rightarrow> store \<times> exn option" where
  "decomposeSKU_loop data skus' [] st = (st, None)"
| "decomposeSKU_loop data skus' (item # items) st =
     (case decomposeSKU_item data skus' item st of
        Inl err \<Rightarrow> (st, Some err)
      | Inr st' \<Rightarrow> decomposeSKU_loop data skus' items st')"

text \<open>
  \<^verbatim>\<open>decomposeSKU(data)\<close> on the module variables \<open>st\<close>: the variables afterwards, and the
  exception that left the function, if one did. Reading \<^verbatim>\<open>data["debug"]["explain"]\<close>
  comes first (line 198) and raises when \<^verbatim>\<open>data["debug"]\<close> is missing, with the
  variables as they were. Then both variables are reset (lines 200 and 201), and
  \<^verbatim>\<open>Object.keys\<close> raises when the explanations are missing.
\<close>

definition decomposeSKU :: "response \<Rightarrow> store \<Rightarrow> store \<times> exn option" where
  "decomposeSKU data st =
     (case debug data of
        None \<Rightarrow> (st, Some TypeError)
      | Some info \<Rightarrow>
          (case debug_explain info of
             None \<Rightarrow> (\<lparr>allProducts = [], allDetails = []\<rparr>, Some TypeError)
           | Some skus' \<Rightarrow>
               decomposeSKU_loop data skus' (map fst skus')
                 \<lparr>allProducts = [], allDetails = []\<rparr>))"

section \<open>Building the cards\<close>

text \<open>
  What \<^verbatim>\<open>addCard\<close> does to the page through \<^verbatim>\<open>scoreList\<close>. The card is a new
  \<^verbatim>\<open>article\<close> with the class \<^verbatim>\<open>product-card\<close>, placed in the section of its product,
  which \<^verbatim>\<open>querySelector\<close> looks up by the id of the product as a class selector. Whether
  the browser finds the section that way is the parameter \<open>finds\<close>: when it does not
  (the selector is not valid, or nothing matches), the lookup or the \<^verbatim>\<open>prepend\<close> after
  it raises and \<^verbatim>\<open>scoreList\<close> is never called. The records of the card are
  \<^verbatim>\<open>allDetails[sku + '_' + productId]\<close>, and a \<^verbatim>\<open>for ... in\<close> over a missing entry runs
  no iteration. The body is a \<^verbatim>\<open>try\<close> whose \<^verbatim>\<open>catch\<close> only logs, so an exception
  leaves the page as it was when raised.
\<close>

definition addCard :: "(string \<Rightarrow> bool) \<Rightarrow> store \<Rightarrow> product \<Rightarrow> string \<Rightarrow> page \<Rightarrow> page option" where
  "addCard finds st data sku' pg =
     (if \<not> finds (js_string (productId data)) then Some pg
      else
        (let productId' = sku' @ ''_'' @ js_string (productId data);
             item = (case map_of (allDetails st) productId' of None \<Rightarrow> [] | Some records \<Rightarrow> records)
         in map_option (\<lambda>(forest, pg', err). pg')
              (scoreList item (pg\<lparr>card_classes := [''product-card'']\<rparr>))))"

fun addCards :: "(string \<Rightarrow> bool) \<Rightarrow> store \<Rightarrow> product \<Rightarrow> string list \<Rightarrow> page \<Rightarrow> page option" where
  "addCards finds st data [] pg = Some pg"
| "addCards finds st data (sku' # rest) pg =
     (case addCard finds st data sku' pg of
        None \<Rightarrow> None
      | Some pg' \<Rightarrow> addCards finds st data rest pg')"

text \<open>
  The loop of \<^verbatim>\<open>buildInterface\<close> over \<^verbatim>\<open>Object.values(allProducts)\<close>, on the checklist.
  \<^verbatim>\<open>addProductSection\<close> gives each product a new section with the id of the product and
  \<^verbatim>\<open>product-container\<close> as classes; when the class list refuses the id, the \<^verbatim>\<open>catch\<close>
  of that function logs, the product has no section, and none of its cards is built. Then
  comes one card for each sku of the product.
\<close>

fun buildInterface_loop ::
  "(string \<Rightarrow> bool) \<Rightarrow> store \<Rightarrow> product list \<Rightarrow> string list \<Rightarrow> string list option" where
  "buildInterface_loop finds st [] boxes = Some boxes"
| "buildInterface_loop finds st (product' # rest) boxes =
     (case token_error (js_string (productId product')) of
        Some err \<Rightarrow> buildInterface_loop finds st rest boxes
      | None \<Rightarrow>
          (case addCards finds st product' (map fst (skus product'))
                  \<lparr>card_classes = [],
                   container_classes =
                     token_insert ''product-container''
                       (token_insert (js_string (productId product')) []),
                   checklist = boxes\<rparr> of
             None \<Rightarrow> None
           | Some pg \<Rightarrow> buildInterface_loop finds st rest (checklist pg)))"

text \<open>
  \<^verbatim>\<open>buildInterface()\<close> on the checklist \<open>boxes\<close> left by the page so far: its first
  statements empty \<^verbatim>\<open>#scores\<close> and \<^verbatim>\<open>#checklist\<close>.
\<close>

definition buildInterface :: "(string \<Rightarrow> bool) \<Rightarrow> store \<Rightarrow> string list \<Rightarrow> string list option" where
  "buildInterface finds st boxes =
     (let boxes' = [] in buildInterface_loop finds st (map snd (allProducts st)) boxes')"

text \<open>
  One query, as \<^verbatim>\<open>loadPage\<close> runs it on the response \<open>data\<close>: \<^verbatim>\<open>queryData\<close> calls
  \<^verbatim>\<open>decomposeSKU\<close> and catches what it raises, and \<^verbatim>\<open>displayData\<close> calls
  \<^verbatim>\<open>buildInterface\<close> after that, whether \<^verbatim>\<open>decomposeSKU\<close> raised or not. The state is
  the two module variables and the checklist.
\<close>

definition new_query ::
  "(string \<Rightarrow> bool) \<Rightarrow> response \<Rightarrow> store \<times> string list \<Rightarrow> (store \<times> string list) option" where
  "new_query finds data previous =
     (let st' = fst (decomposeSKU data (fst previous))
      in map_option (\<lambda>boxes. (st', boxes)) (buildInterface finds st' (snd previous)))"

section \<open>Score statistics\<close>

text \<open>
  The numbers that \<^verbatim>\<open>parseFloat\<close> can return, with the comparison \<^verbatim>\<open>a > b\<close>, which is
  false whenever one side is \<^verbatim>\<open>NaN\<close>. Comparing two finite doubles is comparing the reals
  they stand for.
\<close>

datatype jsnum = NaN | NegInfinity | Finite real | PosInfinity

fun js_gt :: "jsnum \<Rightarrow> jsnum \<Rightarrow> bool" where
  "js_gt NaN b = False"
| "js_gt a NaN = False"
| "js_gt NegInfinity b = False"
| "js_gt (Finite x) NegInfinity = True"
| "js_gt (Finite x) (Finite y) = (x > y)"
| "js_gt (Finite x) PosInfinity = False"
| "js_gt PosInfinity PosInfinity = False"
| "js_gt PosInfinity b = True"

text \<open>
  \<^verbatim>\<open>productScores(product)\<close> on the \<^verbatim>\<open>skus\<close> of a product; \<^verbatim>\<open>parseFloat\<close> is the
  function of the host and a parameter here.
\<close>

definition productScores :: "(jsval \<Rightarrow> jsnum) \<Rightarrow> sku obj \<Rightarrow> nat \<times> jsnum" where
  "productScores parseFloat product' =
     fold (\<lambda>sku' (skuCount, maxScore).
             let current = parseFloat (skuScore sku')
             in (skuCount + 1, if js_gt current maxScore then current else maxScore))
       (map snd product') (0, Finite 0)"

section \<open>Notions of the specification\<close>

text \<open>
  The classification as the specification words it: the rules in their order, the first
  that applies decides; the description cut before its first parenthesis; and the class
  that marks each role on the element, the plain role having none.
\<close>

definition truncated :: "string \<Rightarrow> string" where
  "truncated d = takeWhile (\<lambda>c. c \<noteq> CHR ''('') d"

definition spec_role :: "string \<Rightarrow> role" where
  "spec_role d =
     (if d = ''boost'' then Boost
      else if js_includes d ''idf, computed as'' then Idf
      else if js_includes d ''tf, computed as'' then Tf
      else if truncated d = ''weight'' then WeightAggregate
      else if truncated d = ''max of:'' then MaxAggregate
      else if truncated d = ''query'' then QueryConstant
      else Plain)"

fun role_class :: "role \<Rightarrow> string option" where
  "role_class Boost = Some ''scoreboost''"
| "role_class Idf = Some ''scoreidf''"
| "role_class Tf = Some ''scoretf''"
| "role_class WeightAggregate = Some ''scoreweight''"
| "role_class MaxAggregate = Some ''scoremax''"
| "role_class QueryConstant = Some ''scorequery''"
| "role_class Plain = None"

definition role_mark :: "role \<Rightarrow> nat list option \<Rightarrow> element list \<Rightarrow> element list" where
  "role_mark r drop' forest =
     (case role_class r of None \<Rightarrow> forest | Some cls \<Rightarrow> mark_at cls drop' forest)"

text \<open>What a boost record writes to the page: the class on the card and on its section, and the checkbox.\<close>

definition register_boost :: "string \<Rightarrow> page \<Rightarrow> page" where
  "register_boost boostClass pg =
     sidebarOption boostClass
       (pg\<lparr>card_classes := token_insert boostClass (card_classes pg),
           container_classes := token_insert boostClass (container_classes pg)\<rparr>)"

text \<open>A number that is not negative: neither \<^verbatim>\<open>NaN\<close> nor below zero.\<close>

fun non_negative :: "jsnum \<Rightarrow> bool" where
  "non_negative (Finite x) = (0 \<le> x)"
| "non_negative PosInfinity = True"
| "non_negative NaN = False"
| "non_negative NegInfinity = False"

text \<open>A score that fails to parse, or parses to a negative number.\<close>

definition unparsed_or_negative :: "jsnum \<Rightarrow> bool" where
  "unparsed_or_negative x \<longleftrightarrow> x = NaN \<or> js_gt (Finite 0) x"

text \<open>
  A parser for the examples: it reads the number \<^verbatim>\<open>-3\<close> and fails on everything
  else.
\<close>

definition sample_parseFloat :: "jsval \<Rightarrow> jsnum" where
  "sample_parseFloat v = (if v = JNum ''-3'' then Finite (- 3) else NaN)"

text \<open>
  A list for the examples: a weight element on a boolean colour field and, below it, the
  element of a boost record before it is classified.
\<close>

definition example_color_list :: "element list" where
  "example_color_list =
     [Details 1 [''scoreweight'']
        ''weight(field_color:true in 3) [PerFieldSimilarity], result of:'' ''2''
        [Details 2 [] ''boost'' ''true'' []]]"

text \<open>
  What holds of \<^verbatim>\<open>allProducts\<close> throughout a pass over the documents \<open>ds\<close>: every key
  once, every product under the key of its own id, and that id the id of a document.
\<close>

definition products_ok :: "doc list \<Rightarrow> product obj \<Rightarrow> bool" where
  "products_ok ds ps \<longleftrightarrow>
     distinct (map fst ps) \<and>
     list_all (\<lambda>kp. fst kp = js_string (productId (snd kp)) \<and>
                     productId (snd kp) \<in> product_id ` set ds) ps"

text \<open>
  A response for the examples: one document for the product \<^verbatim>\<open>P2\<close> and one for
  \<^verbatim>\<open>P3\<close>, and explanations for three items, the first of a product \<^verbatim>\<open>P1\<close> that no
  document has, the other two of \<^verbatim>\<open>P2\<close>; the same response without its
  \<^verbatim>\<open>debug\<close>; the stores that an earlier query for a product \<^verbatim>\<open>P9\<close> has left, with
  the records of a boost on the term \<^verbatim>\<open>big\<close>; and a page on which
  \<^verbatim>\<open>querySelector\<close> finds every section.
\<close>

definition example_docs :: "doc list" where
  "example_docs =
     [\<lparr>product_id = JStr ''P2'', product_displayName = JStr ''Tank'', sku_size = JStr ''M'',
       sku_skuImages = Some [JStr ''tank.png''],
       style_order_list = Some [\<lparr>sku_id = JStr ''A2'', entry_skuImages = Some [JStr ''a2.png'']\<rparr>]\<rparr>,
      \<lparr>product_id = JStr ''P3'', product_displayName = JStr ''Short'', sku_size = JStr ''S'',
       sku_skuImages = Some [], style_order_list = Some []\<rparr>]"

definition example_explain :: "node obj" where
  "example_explain =
     [(''A1_P1'', Node (JStr ''weight(name:tank in 1)'') (JNum ''3'') None),
      (''A2_P2'', Node (JStr ''weight(field_color:true in 3)'') (JNum ''2'')
                   (Some [Node (JStr ''boost'') (JNum ''2'') None])),
      (''A3_P2'', Node (JStr ''sum of:'') (JNum ''1'') (Some []))]"

definition example_response :: response where
  "example_response =
     \<lparr>debug = Some \<lparr>debug_explain = Some example_explain\<rparr>, docs = Some example_docs\<rparr>"

definition response_without_debug :: response where
  "response_without_debug = \<lparr>debug = None, docs = Some example_docs\<rparr>"

definition empty_store :: store where
  "empty_store = \<lparr>allProducts = [], allDetails = []\<rparr>"

definition stale_store :: store where
  "stale_store =
     \<lparr>allProducts =
        [(''P9'', \<lparr>productId = JStr ''P9'', displayName = JStr ''Old'', size' = JNull,
                   prodImg = JNull,
                   skus = [(''A9'', \<lparr>skuScore = JNum ''7'', skuImg = JUndefined\<rparr>)]\<rparr>)],
      allDetails =
        [(''A9_P9'', [(1, JStr ''weight(size:big in 4)'', JNum ''7''),
                      (2, JStr ''boost'', JNum ''7'')])]\<rparr>"

definition finds_every_section :: "string \<Rightarrow> bool" where
  "finds_every_section productId' = True"

section \<open>Properties of the flattener\<close>

lemma fold_const_id: "fold (\<lambda>key acc'. acc') ks acc = acc"
  by (induction ks) simp_all

lemma fold_traverse:
  assumes "\<And>c acc. c \<in> set cs \<Longrightarrow> f c (acc @ [r c]) = acc @ r c # g c"
  shows "fold (\<lambda>c acc'. f c (acc' @ [r c])) cs acc = acc @ concat (map (\<lambda>c. r c # g c) cs)"
  using assms by (induction cs arbitrary: acc) simp_all

lemma preorder_unfold:
  "preorder depth n = (depth, description n, val n) # concat (map (preorder (depth + 1)) (case details n of None \<Rightarrow> [] | Some cs \<Rightarrow> cs))"
  by (cases n) (simp split: option.split)

lemma traverseDetails_preorder:
  "traverseDetails depth n acc = acc @ tl (preorder depth n)"
proof (induction depth n acc rule: traverseDetails.induct)
  case (1 depth d v dets acc)
  show ?case
  proof (cases dets)
    case None
    then show ?thesis by simp
  next
    case (Some short)
    have step: "traverseDetails (depth + 1) c (a @ [(depth + 1, description c, val c)])
                  = a @ (depth + 1, description c, val c) # tl (preorder (depth + 1) c)"
      if "c \<in> set short" for c a
      using "1.IH"[OF Some that] by simp
    have "fold (\<lambda>child acc'. traverseDetails (depth + 1) child (acc' @ [(depth + 1, description child, val child)])) short acc
          = acc @ concat (map (\<lambda>c. (depth + 1, description c, val c) # tl (preorder (depth + 1) c)) short)"
      by (rule fold_traverse) (rule step)
    moreover have "(\<lambda>c. (depth + 1, description c, val c) # tl (preorder (depth + 1) c)) = preorder (depth + 1)"
      by (rule ext) (simp add: preorder_unfold)
    ultimately show ?thesis
      using Some by (simp add: fold_const_id traverseDetails_array_def)
  qed
qed

lemma item_details_preorder: "item_details t = preorder 1 t"
  by (cases t) (simp add: item_details_def traverseDetails_preorder del: traverseDetails.simps)

lemma length_preorder: "length (preorder depth t) = node_count t"
proof (induction depth t rule: preorder.induct)
  case (1 depth d v dets)
  show ?case
  proof (cases dets)
    case None
    then show ?thesis by simp
  next
    case (Some cs)
    have "map (length \<circ> preorder (depth + 1)) cs = map node_count cs"
      using "1.IH"[OF Some] by simp
    then have "sum_list (map (length \<circ> preorder (depth + 1)) cs) = sum_list (map node_count cs)"
      by (rule arg_cong)
    then show ?thesis using Some by (simp add: length_concat o_def)
  qed
qed

lemma preorder_nodes_at: "preorder depth t = map record_of (nodes_at depth t)"
proof (induction depth t rule: preorder.induct)
  case (1 depth d v dets)
  show ?case
  proof (cases dets)
    case None
    then show ?thesis by (simp add: record_of_def)
  next
    case (Some cs)
    have "map (preorder (depth + 1)) cs = map (map record_of \<circ> nodes_at (depth + 1)) cs"
      using "1.IH"[OF Some] by simp
    then have "concat (map (preorder (depth + 1)) cs)
               = concat (map (map record_of \<circ> nodes_at (depth + 1)) cs)"
      by (rule arg_cong)
    then show ?thesis using Some by (simp add: map_concat) (simp add: record_of_def)
  qed
qed

lemma malformed_record_of: "malformed_record (record_of dn) = malformed (snd dn)"
  by (simp add: malformed_record_def record_of_def malformed_def)

text \<open>
  Claim C1. For every explanation tree, the records that the flattener emits for an item
  are exactly the pre-order listing of the tree: one record for each node, the root first
  and at depth 1, the record of a node before the records of its children, the children in
  their order in the source, each child one deeper than its parent. So the number of
  records is the number of nodes.
\<close>

theorem flatten_is_preorder:
  "item_details t = preorder 1 t \<and> length (item_details t) = node_count t"
  by (simp add: item_details_preorder length_preorder)

text \<open>
  Claim C4, as the code has it. A node without description or value is not passed over:
  the flattener emits its record as well, with \<open>JUndefined\<close> for what is missing, and
  goes on. The malformed records are those of the malformed nodes, the other records
  those of the other nodes, both in pre-order.
\<close>

theorem malformed_nodes_emitted:
  "filter malformed_record (item_details t) =
     map record_of (filter (\<lambda>dn. malformed (snd dn)) (nodes_at 1 t)) \<and>
   filter (\<lambda>r. \<not> malformed_record r) (item_details t) =
     map record_of (filter (\<lambda>dn. \<not> malformed (snd dn)) (nodes_at 1 t))"
  by (simp add: item_details_preorder preorder_nodes_at filter_map o_def malformed_record_of)

text \<open>
  The theorem on a tree whose first child has no description: its record is there, and so
  is the record of the child after it.
\<close>

theorem malformed_nodes_emitted_witness:
  "filter malformed_record
     (item_details (Node (JStr ''sum of:'') (JNum ''10'')
        (Some [Node JUndefined (JNum ''6'') None, Node (JStr ''weight(field:y)'') (JNum ''4'') None])))
   = [(2, JUndefined, JNum ''6'')] \<and>
   filter (\<lambda>r. \<not> malformed_record r)
     (item_details (Node (JStr ''sum of:'') (JNum ''10'')
        (Some [Node JUndefined (JNum ''6'') None, Node (JStr ''weight(field:y)'') (JNum ''4'') None])))
   = [(1, JStr ''sum of:'', JNum ''10''), (2, JStr ''weight(field:y)'', JNum ''4'')]"
  using malformed_nodes_emitted
    [of "Node (JStr ''sum of:'') (JNum ''10'')
           (Some [Node JUndefined (JNum ''6'') None, Node (JStr ''weight(field:y)'') (JNum ''4'') None])"]
  by (simp add: malformed_def record_of_def)

text \<open>
  Claim C4 as stated fails: the flattener emits a record for the child that has no
  description.
\<close>

theorem malformed_node_not_skipped:
  "item_details (Node (JStr ''sum of:'') (JNum ''10'')
     (Some [Node JUndefined (JNum ''6'') None, Node (JStr ''weight(field:y)'') (JNum ''4'') None]))
   = [(1, JStr ''sum of:'', JNum ''10''), (2, JUndefined, JNum ''6''),
      (2, JStr ''weight(field:y)'', JNum ''4'')]"
  by (simp add: item_details_def traverseDetails_array_def)

section \<open>Properties of the formula\<close>

text \<open>
  Claim C2. The tree of the scenario, a sum of two weights with the values 6 and 4 (the
  children of a node are its \<^verbatim>\<open>details\<close>), is flattened to three records at the depths
  1, 2 and 2, and its formula, after the walk, the flattening, the join with spaces and the
  two replacements, is \<^verbatim>\<open>(6 + 4)\<close>.
\<close>

theorem scenario_sum_of_two_weights:
  "item_details (Node (JStr ''sum of:'') (JNum ''10'')
     (Some [Node (JStr ''weight(field:x)'') (JNum ''6'') None,
            Node (JStr ''weight(field:y)'') (JNum ''4'') None]))
   = [(1, JStr ''sum of:'', JNum ''10''), (2, JStr ''weight(field:x)'', JNum ''6''),
      (2, JStr ''weight(field:y)'', JNum ''4'')] \<and>
   item_formula (Node (JStr ''sum of:'') (JNum ''10'')
     (Some [Node (JStr ''weight(field:x)'') (JNum ''6'') None,
            Node (JStr ''weight(field:y)'') (JNum ''4'') None]))
   = Some (Inr ''(6 + 4)'')"
  by code_simp

text \<open>
  Claim C6 on a sum inside a sum. Each replacement reaches the first occurrence only, so
  the formula of the item keeps the \<^verbatim>\<open>( + \<close> of the inner sum and the blank before the
  last parenthesis, and a second pass over that formula changes it.
\<close>

theorem nested_sum_normalized_once:
  "item_formula (Node (JStr ''sum of:'') (JNum ''10'')
     (Some [Node (JStr ''weight(field:x)'') (JNum ''6'') None,
            Node (JStr ''sum of:'') (JNum ''4'')
              (Some [Node (JStr ''weight(field:y)'') (JNum ''1'') None,
                     Node (JStr ''weight(field:z)'') (JNum ''3'') None])]))
   = Some (Inr ''(6 ( + 1 + 3) )'') \<and>
   normalize_parens ''(6 ( + 1 + 3) )'' = ''(6 (1 + 3))''"
  by code_simp

section \<open>Properties of the classifier\<close>

lemma js_split_not_Nil: "js_split sep s \<noteq> []"
  by (induction s) (auto split: list.split)

lemma hd_js_split: "hd (js_split sep s) = takeWhile (\<lambda>c. c \<noteq> sep) s"
  using js_split_not_Nil[of sep] by (induction s) (auto split: list.split)

lemma role_tokens_accepted:
  "token_error ''scoreboost'' = None" "token_error ''scoreidf'' = None"
  "token_error ''scoretf'' = None" "token_error ''scoreweight'' = None"
  "token_error ''scoremax'' = None" "token_error ''scorequery'' = None"
  by (simp_all add: token_error_def ascii_whitespace_def)

lemma classList_add_token:
  "token \<noteq> [] \<Longrightarrow>
   classList_add token cls =
     (if list_ex ascii_whitespace token then Inl InvalidCharacterError
      else Inr (token_insert token cls))"
  by (simp add: classList_add_def token_error_def)

text \<open>
  Claim C3, for the records whose description is a string. The classifier marks the
  element with the class of exactly the role that the rules give in their order:
  \<^verbatim>\<open>boost\<close> first, then the two substrings, then the description cut before its first
  parenthesis; a description that none of the rules knows gets the plain role and no class.
  Only a boost record writes to the page, and only a boost record can raise: when its class
  name, the boost name, \<^verbatim>\<open>-boost-\<close> and the value, holds white space, the class list
  of the card refuses it with an \<^verbatim>\<open>InvalidCharacterError\<close> before anything is
  written. Every other record of a string description returns without an exception.
\<close>

theorem classifier_refines_rules:
  "addBoostClass pg forest drop' (n, JStr d, v) =
     (if spec_role d = Boost
      then (if list_ex ascii_whitespace
                 (js_string (getBoostName forest drop') @ ''-boost-'' @ js_string v)
            then Inl InvalidCharacterError
            else Inr (register_boost
                        (js_string (getBoostName forest drop') @ ''-boost-'' @ js_string v) pg,
                      role_mark Boost drop' forest))
      else Inr (pg, role_mark (spec_role d) drop' forest))"
proof (cases "d = ''boost''")
  case True
  define boostClass
    where "boostClass = js_string (getBoostName forest drop') @ ''-boost-'' @ js_string v"
  have ne: "boostClass \<noteq> []"
    by (simp add: boostClass_def)
  have run: "addBoostClass pg forest drop' (n, JStr d, v) =
             (case classList_add boostClass (card_classes pg) of
                Inl err \<Rightarrow> Inl err
              | Inr card' \<Rightarrow>
                  (case classList_add boostClass (container_classes pg) of
                     Inl err \<Rightarrow> Inl err
                   | Inr container' \<Rightarrow>
                       map_sum id
                         (Pair (sidebarOption boostClass
                                  (pg\<lparr>card_classes := card', container_classes := container'\<rparr>)))
                         (drop_add ''scoreboost'' drop' forest)))"
    unfolding boostClass_def addBoostClass_def Let_def
    by (simp only: fst_conv snd_conv True simp_thms if_True)
  have role: "spec_role d = Boost"
    using True by (simp add: spec_role_def)
  have "addBoostClass pg forest drop' (n, JStr d, v) =
          (if list_ex ascii_whitespace boostClass then Inl InvalidCharacterError
           else Inr (register_boost boostClass pg, role_mark Boost drop' forest))"
    unfolding run classList_add_token[OF ne]
    by (simp add: drop_add_def role_tokens_accepted role_mark_def register_boost_def)
  then show ?thesis
    using role by (simp only: boostClass_def simp_thms if_True)
next
  case False
  then show ?thesis
    by (simp add: addBoostClass_def spec_role_def role_mark_def truncated_def hd_js_split
        Let_def drop_add_def role_tokens_accepted)
qed

text \<open>
  The theorem on two records: a boost whose value holds a blank, and a sum, which gets
  the plain role.
\<close>

theorem classifier_refines_rules_witness:
  "addBoostClass new_card [] None (2, JStr ''boost'', JStr ''a b'') = Inl InvalidCharacterError \<and>
   addBoostClass new_card [] None (1, JStr ''sum of:'', JNum ''10'') = Inr (new_card, [])"
  using classifier_refines_rules[of new_card "[]" None 2 "''boost''" "JStr ''a b''"]
        classifier_refines_rules[of new_card "[]" None 1 "''sum of:''" "JNum ''10''"]
  by (simp add: spec_role_def truncated_def role_mark_def getBoostName_def ascii_whitespace_def)

text \<open>
  Claim C3 as stated fails on the record of a node that has no description: the call of
  \<^verbatim>\<open>includes\<close> on \<^verbatim>\<open>undefined\<close> raises, and the list of the card stops there.
\<close>

theorem missing_description_raises:
  "item_details (Node JUndefined (JNum ''1'') None) = [(1, JUndefined, JNum ''1'')] \<and>
   scoreList [(1, JUndefined, JNum ''1'')] new_card
   = Some ([Details 1 [] [] ''1'' []], new_card, Some TypeError)"
  by code_simp

subsection \<open>The name of a boost\<close>

lemma js_split_no_sep: "sep \<notin> set a \<Longrightarrow> js_split sep a = [a]"
  by (induction a) auto

lemma js_split_append_sep: "sep \<notin> set a \<Longrightarrow> js_split sep (a @ sep # b) = a # js_split sep b"
  by (induction a) auto

lemma boostName_of_color_true:
  assumes pre: "set pre \<inter> {CHR '' '', CHR '':'', CHR ''_''} = {}"
      and rest: "rest = [] \<or> hd rest = CHR '' ''"
  shows "boostName_of (pre @ ''field_color:true'' @ rest) = Inr (JStr ''color'')"
proof -
  let ?name = "pre @ ''field_color:true'' @ rest"
  let ?word = "pre @ ''field_color:true''"
  have nosp: "CHR '' '' \<notin> set ?word" using pre by auto
  have first: "hd (js_split CHR '' '' ?name) = ?word"
  proof (cases rest)
    case Nil
    then show ?thesis using js_split_no_sep[OF nosp] by simp
  next
    case (Cons c r)
    with rest have "c = CHR '' ''" by simp
    then show ?thesis using js_split_append_sep[OF nosp, of r] Cons by simp
  qed
  have nocol: "CHR '':'' \<notin> set (pre @ ''field_color'')" using pre by auto
  have pieces: "js_split CHR '':'' ?word = [pre @ ''field_color'', ''true'']"
    using js_split_append_sep[OF nocol, of "''true''"] by simp
  have field: "hd (js_split CHR '':'' ?name) = pre @ ''field_color''"
    using js_split_append_sep[OF nocol, of "''true'' @ rest"] by simp
  have nound: "CHR ''_'' \<notin> set (pre @ ''field'')" using pre by auto
  have parts: "js_split CHR ''_'' (pre @ ''field_color'') = [pre @ ''field'', ''color'']"
    using js_split_append_sep[OF nound, of "''color''"] by simp
  show ?thesis
    unfolding boostName_of_def first pieces field parts
    by (simp add: at_index_def)
qed

lemma in_token_insert: "c \<in> set (token_insert c cls)"
  by (simp add: token_insert_def)

lemma color_token_accepted: "token_error ''color-boost-true'' = None"
  by (simp add: token_error_def ascii_whitespace_def)

lemma in_sidebarOption: "(''check-'' @ b) \<in> set (checklist (sidebarOption b pg))"
  by (simp add: sidebarOption_def)

lemma card_classes_sidebarOption: "card_classes (sidebarOption b pg) = card_classes pg"
  by (simp add: sidebarOption_def)

text \<open>
  Claim C7, as the code has it. What makes the name \<^verbatim>\<open>color\<close> is the weight element's
  description, not the value of the boost record: its first word has to end in
  \<^verbatim>\<open>field_color:true\<close>, after a prefix such as \<^verbatim>\<open>weight(\<close> without blank, colon or
  underscore. Then a boost record below that element, with the value \<^verbatim>\<open>true\<close>, gets the
  name \<^verbatim>\<open>color\<close>, the card gets the class \<^verbatim>\<open>color-boost-true\<close> and the checklist has
  the checkbox of that class.
\<close>

theorem color_boost_registered:
  assumes "closest forest p ''scoreweight'' = Some w"
      and "desc_text w = pre @ ''field_color:true'' @ rest"
      and "set pre \<inter> {CHR '' '', CHR '':'', CHR ''_''} = {}"
      and "rest = [] \<or> hd rest = CHR '' ''"
      and "js_string v = ''true''"
  shows "getBoostName forest (Some p) = JStr ''color'' \<and>
         (\<exists>pg' forest'. addBoostClass pg forest (Some p) (n, JStr ''boost'', v) = Inr (pg', forest') \<and>
            ''check-color-boost-true'' \<in> set (checklist pg') \<and>
            ''color-boost-true'' \<in> set (card_classes pg'))"
proof -
  have name: "getBoostName forest (Some p) = JStr ''color''"
    using assms(1,2) boostName_of_color_true[OF assms(3,4)]
    by (simp add: getBoostName_def)
  have box: "''check-color-boost-true'' \<in> set (checklist (register_boost ''color-boost-true'' pg))"
    using in_sidebarOption[of "''color-boost-true''"] by (simp add: register_boost_def)
  have cls: "''color-boost-true'' \<in> set (card_classes (register_boost ''color-boost-true'' pg))"
    using in_token_insert[of "''color-boost-true''" "card_classes pg"]
    by (simp add: register_boost_def card_classes_sidebarOption)
  have run: "addBoostClass pg forest (Some p) (n, JStr ''boost'', v)
             = Inr (register_boost ''color-boost-true'' pg, mark_at ''scoreboost'' (Some p) forest)"
    using name assms(5)
    by (simp add: addBoostClass_def register_boost_def Let_def classList_add_def drop_add_def
        color_token_accepted role_tokens_accepted)
  show ?thesis
    using name box cls run by blast
qed

text \<open>The theorem on the example list, for the boost record at the path \<open>[0, 0]\<close>.\<close>

theorem color_boost_registered_witness:
  "closest example_color_list [0, 0] ''scoreweight'' = Some (hd example_color_list) \<and>
   desc_text (hd example_color_list)
     = ''weight('' @ ''field_color:true'' @ '' in 3) [PerFieldSimilarity], result of:'' \<and>
   getBoostName example_color_list (Some [0, 0]) = JStr ''color'' \<and>
   (\<exists>pg' forest'.
      addBoostClass new_card example_color_list (Some [0, 0]) (2, JStr ''boost'', JStr ''true'')
        = Inr (pg', forest') \<and>
      ''check-color-boost-true'' \<in> set (checklist pg') \<and>
      ''color-boost-true'' \<in> set (card_classes pg'))"
proof -
  have c: "closest example_color_list [0, 0] ''scoreweight'' = Some (hd example_color_list)"
    by code_simp
  have d: "desc_text (hd example_color_list)
     = ''weight('' @ ''field_color:true'' @ '' in 3) [PerFieldSimilarity], result of:''"
    by (simp add: example_color_list_def)
  have pre: "set ''weight('' \<inter> {CHR '' '', CHR '':'', CHR ''_''} = {}"
    by simp
  have rest: "'' in 3) [PerFieldSimilarity], result of:'' = [] \<or>
              hd '' in 3) [PerFieldSimilarity], result of:'' = CHR '' ''"
    by simp
  have v: "js_string (JStr ''true'') = ''true''"
    by simp
  show ?thesis
    using c d color_boost_registered[OF c d pre rest v, of new_card 2] by blast
qed

text \<open>
  Claim C7 as stated fails: the weight element's description contains
  \<^verbatim>\<open>field_color:\<close> and the boost record has the value \<^verbatim>\<open>true\<close>, but the term of the
  field is \<^verbatim>\<open>red\<close>, and that is the name.
\<close>

theorem color_field_other_term:
  "js_includes ''weight(field_color:red in 3) [PerFieldSimilarity], result of:'' ''field_color:'' \<and>
   scoreList
     [(1, JStr ''weight(field_color:red in 3) [PerFieldSimilarity], result of:'', JNum ''2''),
      (2, JStr ''boost'', JStr ''true'')]
     new_card
   = Some ([Details 1 [''scoreweight'']
              ''weight(field_color:red in 3) [PerFieldSimilarity], result of:'' ''2''
              [Details 2 [''scoreboost''] ''boost'' ''true'' []]],
           \<lparr>card_classes = [''product-card'', ''red-boost-true''],
            container_classes = [''red-boost-true''],
            checklist = [''check-red-boost-true'']\<rparr>,
           None)"
  by code_simp

section \<open>Properties of the score statistics\<close>

lemma js_gt_non_negative: "js_gt cur m \<Longrightarrow> non_negative m \<Longrightarrow> non_negative cur"
  by (cases cur; cases m) auto

lemma not_js_gt_negative: "unparsed_or_negative cur \<Longrightarrow> non_negative m \<Longrightarrow> \<not> js_gt cur m"
  by (cases cur; cases m) (auto simp: unparsed_or_negative_def)

lemma productScores_fold:
  "fold (\<lambda>sku' (skuCount, maxScore).
             let current = pf (skuScore sku')
             in (skuCount + 1, if js_gt current maxScore then current else maxScore)) xs (c, m) = (c', m')
   \<Longrightarrow> non_negative m \<Longrightarrow>
   c' = c + length xs \<and> non_negative m' \<and>
   (list_all (\<lambda>s. unparsed_or_negative (pf (skuScore s))) xs \<longrightarrow> m' = m)"
proof (induction xs arbitrary: c m)
  case Nil
  then show ?case by simp
next
  case (Cons x xs)
  let ?m1 = "if js_gt (pf (skuScore x)) m then pf (skuScore x) else m"
  have nn: "non_negative ?m1"
    using Cons.prems(2) by (simp add: js_gt_non_negative)
  have "fold (\<lambda>sku' (skuCount, maxScore).
             let current = pf (skuScore sku')
             in (skuCount + 1, if js_gt current maxScore then current else maxScore)) xs (c + 1, ?m1) = (c', m')"
    using Cons.prems(1) by (simp add: Let_def)
  from Cons.IH[OF this nn]
  have ih: "c' = c + 1 + length xs" "non_negative m'"
           "list_all (\<lambda>s. unparsed_or_negative (pf (skuScore s))) xs \<longrightarrow> m' = ?m1"
    by auto
  show ?case
    using ih Cons.prems(2) by (auto simp: not_js_gt_negative)
qed

text \<open>
  Claim C10. Whatever \<^verbatim>\<open>parseFloat\<close> returns for the scores, the count is the number of
  entries of the sku map, the maximum reported is never negative, and it is 0 when every
  score fails to parse or parses to a negative number.
\<close>

theorem productScores_never_negative:
  "fst (productScores pf product') = length product' \<and>
   non_negative (snd (productScores pf product')) \<and>
   (list_all (\<lambda>(k, s). unparsed_or_negative (pf (skuScore s))) product' \<longrightarrow>
      snd (productScores pf product') = Finite 0)"
proof -
  obtain c' m' where r: "productScores pf product' = (c', m')"
    by (cases "productScores pf product'")
  have all: "list_all (\<lambda>s. unparsed_or_negative (pf (skuScore s))) (map snd product')
             = list_all (\<lambda>(k, s). unparsed_or_negative (pf (skuScore s))) product'"
    by (simp add: list_all_iff case_prod_unfold)
  from r productScores_fold[of pf "map snd product'" 0 "Finite 0" c' m']
  show ?thesis
    unfolding productScores_def all by simp
qed

text \<open>The theorem on two skus, one with a negative score and one with a score that is no number.\<close>

theorem productScores_never_negative_witness:
  "list_all (\<lambda>(k, s). unparsed_or_negative (sample_parseFloat (skuScore s)))
     [(''A1'', \<lparr>skuScore = JNum ''-3'', skuImg = JNull\<rparr>),
      (''A2'', \<lparr>skuScore = JStr ''n/a'', skuImg = JNull\<rparr>)] \<and>
   productScores sample_parseFloat
     [(''A1'', \<lparr>skuScore = JNum ''-3'', skuImg = JNull\<rparr>),
      (''A2'', \<lparr>skuScore = JStr ''n/a'', skuImg = JNull\<rparr>)] = (2, Finite 0)"
  using productScores_never_negative
    [of sample_parseFloat "[(''A1'', \<lparr>skuScore = JNum ''-3'', skuImg = JNull\<rparr>),
              (''A2'', \<lparr>skuScore = JStr ''n/a'', skuImg = JNull\<rparr>)]"]
  by (simp add: unparsed_or_negative_def sample_parseFloat_def productScores_def)

section \<open>Properties of the aggregator\<close>

lemma setData_docs_None_iff:
  "setData_docs ds p s = Inr None \<longleftrightarrow> (\<forall>d\<in>set ds. product_id d \<noteq> p)"
  by (induction ds) (auto split: option.splits sum.splits)

lemma setData_docs_Some:
  "setData_docs ds p s = Inr (Some a) \<Longrightarrow> \<exists>d\<in>set ds. product_id d = p"
  by (induction ds) (auto split: option.splits sum.splits if_splits)

lemma set_insert_index: "set (insert_index k v kvs) = insert (k, v) (set kvs)"
  by (induction kvs) (auto split: if_splits)

lemma map_of_None_iff: "map_of kvs k = None \<longleftrightarrow> k \<notin> fst ` set kvs"
  by (simp add: map_of_eq_None_iff)

lemma fst_set_replace:
  "fst ` set (map (\<lambda>(k', v'). if k' = k then (k', f k' v') else (k', v')) kvs) = fst ` set kvs"
  by (induction kvs) auto

lemma map_fst_replace:
  "map fst (map (\<lambda>(k', v'). if k' = k then (k', f k' v') else (k', v')) kvs) = map fst kvs"
  by (induction kvs) auto

lemma fst_set_obj_set:
  "k \<noteq> ''__proto__'' \<Longrightarrow> fst ` set (obj_set k v kvs) = insert k (fst ` set kvs)"
proof (cases "map_of kvs k = None")
  case True
  moreover assume "k \<noteq> ''__proto__''"
  ultimately show ?thesis
    by (auto simp: obj_set_def set_insert_index)
next
  case False
  assume proper: "k \<noteq> ''__proto__''"
  from False have "k \<in> fst ` set kvs" by (simp add: map_of_None_iff)
  moreover have "fst ` set (map (\<lambda>(k', v'). if k' = k then (k', v) else (k', v')) kvs) = fst ` set kvs"
    using fst_set_replace[of k "\<lambda>_ _. v" kvs] by simp
  ultimately show ?thesis
    using False proper by (auto simp: obj_set_def)
qed

lemma fst_set_obj_set_subset: "fst ` set (obj_set k v kvs) \<subseteq> insert k (fst ` set kvs)"
proof (cases "k = ''__proto__''")
  case True
  then show ?thesis by (auto simp: obj_set_def)
next
  case False
  then show ?thesis by (simp add: fst_set_obj_set)
qed

lemma set_obj_set_new:
  "k \<noteq> ''__proto__'' \<Longrightarrow> map_of kvs k = None \<Longrightarrow>
   set (obj_set k v kvs) = insert (k, v) (set kvs)"
  by (auto simp: obj_set_def set_insert_index)

lemma proto_inherited: "''__proto__'' \<in> set inherited_names"
  by (simp add: inherited_names_def)

lemma distinct_insert_index:
  "k \<notin> fst ` set kvs \<Longrightarrow> distinct (map fst kvs) \<Longrightarrow> distinct (map fst (insert_index k v kvs))"
proof (induction kvs)
  case Nil
  then show ?case by simp
next
  case (Cons a kvs)
  have "fst ` set (insert_index k v kvs) = insert k (fst ` set kvs)"
    by (simp add: set_insert_index)
  with Cons show ?case by (cases a) auto
qed

lemma distinct_obj_set_new:
  "map_of kvs k = None \<Longrightarrow> distinct (map fst kvs) \<Longrightarrow> distinct (map fst (obj_set k v kvs))"
  by (auto simp: obj_set_def map_of_None_iff distinct_insert_index)

lemma products_ok_replace:
  assumes "products_ok ds ps" and "\<And>p. productId (f p) = productId p"
  shows "products_ok ds (map (\<lambda>(k, p). if k = key then (k, f p) else (k, p)) ps)"
proof -
  have "map fst (map (\<lambda>(k, p). if k = key then (k, f p) else (k, p)) ps) = map fst ps"
    using map_fst_replace[of key "\<lambda>_. f" ps] by simp
  moreover have "list_all (\<lambda>kp. fst kp = js_string (productId (snd kp)) \<and>
                     productId (snd kp) \<in> product_id ` set ds)
                   (map (\<lambda>(k, p). if k = key then (k, f p) else (k, p)) ps)"
    using assms by (auto simp: products_ok_def list_all_iff)
  moreover have "distinct (map fst ps)"
    using assms(1) by (simp add: products_ok_def)
  ultimately show ?thesis
    unfolding products_ok_def by (simp only:)
qed

lemma products_ok_new:
  assumes "products_ok ds ps" and "map_of ps (js_string (productId p)) = None"
      and "productId p \<in> product_id ` set ds"
      and "js_string (productId p) \<noteq> ''__proto__''"
  shows "products_ok ds (obj_set (js_string (productId p)) p ps)"
  using assms
  by (auto simp: products_ok_def distinct_obj_set_new set_obj_set_new list_all_iff)

text \<open>One step of the loop: what it keeps and which keys it adds.\<close>

lemma decomposeSKU_item_step:
  assumes d: "docs data = Some ds"
      and run: "decomposeSKU_item data sk item st = Inr st'"
      and ok: "products_ok ds (allProducts st)"
  shows "products_ok ds (allProducts st')"
    and "fst ` set (allProducts st') =
           fst ` set (allProducts st) \<union>
           (if item_prodId item \<in> product_id ` set ds then {js_string (item_prodId item)} else {})"
    and "fst ` set (allDetails st') \<subseteq>
           fst ` set (allDetails st) \<union>
           (if item_prodId item \<in> product_id ` set ds then {item} else {})"
proof -
  obtain e where e: "map_of sk item = Some e"
    using run by (auto simp: decomposeSKU_item_def Let_def split: option.splits)
  let ?pid = "item_prodId item"
  let ?key = "js_string ?pid"
  consider (none) "setData_docs ds ?pid (JStr (item_skuId item)) = Inr None"
    | (some) array where "setData_docs ds ?pid (JStr (item_skuId item)) = Inr (Some array)"
    using run e d
    by (auto simp: decomposeSKU_item_def Let_def setData_def split: sum.splits option.splits)
  then have "products_ok ds (allProducts st') \<and>
     fst ` set (allProducts st') =
           fst ` set (allProducts st) \<union>
           (if ?pid \<in> product_id ` set ds then {?key} else {}) \<and>
     fst ` set (allDetails st') \<subseteq>
           fst ` set (allDetails st) \<union>
           (if ?pid \<in> product_id ` set ds then {item} else {})"
  proof cases
    case none
    then have "st' = st"
      using run e d by (simp add: decomposeSKU_item_def Let_def setData_def)
    moreover have "?pid \<notin> product_id ` set ds"
      using none by (auto simp: setData_docs_None_iff)
    ultimately show ?thesis using ok by simp
  next
    case some
    have matched: "?pid \<in> product_id ` set ds"
      using setData_docs_Some[OF some] by force
    let ?new = "\<lparr>productId = ?pid, displayName = array_at array 0,
                  size' = array_at array 1, prodImg = array_at array 2, skus = []\<rparr>"
    let ?products = "if map_of (allProducts st) ?key = None
                     then obj_set ?key ?new (allProducts st) else allProducts st"
    let ?f = "\<lambda>p. p\<lparr>skus := obj_set (item_skuId item)
                                \<lparr>skuScore = val e, skuImg = array_at array 3\<rparr> (skus p)\<rparr>"
    have own: "\<not> (map_of (allProducts st) ?key = None \<and> ?key \<in> set inherited_names)"
      using run e d some
      by (auto simp: decomposeSKU_item_def Let_def setData_def split: if_splits)
    then have proper: "map_of (allProducts st) ?key = None \<Longrightarrow> ?key \<noteq> ''__proto__''"
      using proto_inherited by metis
    have st': "st' = \<lparr>allProducts = map (\<lambda>(k, p). if k = ?key then (k, ?f p) else (k, p)) ?products,
                      allDetails = obj_set item (item_details e) (allDetails st)\<rparr>"
      using run e d some own by (simp add: decomposeSKU_item_def Let_def setData_def)
    have okp: "products_ok ds ?products"
      using ok matched proper products_ok_new[of ds "allProducts st" ?new] by simp
    have keys: "fst ` set ?products = insert ?key (fst ` set (allProducts st))"
      using proper by (auto simp: fst_set_obj_set map_of_None_iff)
    have "products_ok ds (allProducts st')"
      unfolding st' using products_ok_replace[OF okp, of ?f ?key] by simp
    moreover have "fst ` set (allProducts st') = insert ?key (fst ` set (allProducts st))"
      unfolding st' using fst_set_replace[of ?key "\<lambda>_. ?f" ?products] keys by simp
    moreover have "fst ` set (allDetails st') \<subseteq> insert item (fst ` set (allDetails st))"
      unfolding st' by (simp add: fst_set_obj_set_subset)
    ultimately show ?thesis using matched by auto
  qed
  then show "products_ok ds (allProducts st')"
    and "fst ` set (allProducts st') =
           fst ` set (allProducts st) \<union>
           (if item_prodId item \<in> product_id ` set ds then {js_string (item_prodId item)} else {})"
    and "fst ` set (allDetails st') \<subseteq>
           fst ` set (allDetails st) \<union>
           (if item_prodId item \<in> product_id ` set ds then {item} else {})"
    by simp_all
qed

text \<open>The whole loop, also when an exception ends it.\<close>

lemma subset_chain:
  "X \<subseteq> Y \<union> L \<Longrightarrow> Y \<subseteq> Z \<union> H \<Longrightarrow> H \<subseteq> T \<Longrightarrow> L \<subseteq> T \<Longrightarrow> X \<subseteq> Z \<union> T"
  by blast

lemma decomposeSKU_loop_inv:
  assumes d: "docs data = Some ds"
      and ok: "products_ok ds (allProducts st)"
  shows "products_ok ds (allProducts (fst (decomposeSKU_loop data sk items st))) \<and>
         fst ` set (allDetails (fst (decomposeSKU_loop data sk items st))) \<subseteq>
           fst ` set (allDetails st) \<union> {k \<in> set items. item_prodId k \<in> product_id ` set ds} \<and>
         (snd (decomposeSKU_loop data sk items st) = None \<longrightarrow>
            fst ` set (allProducts (fst (decomposeSKU_loop data sk items st))) =
              fst ` set (allProducts st) \<union>
              js_string ` {p \<in> product_id ` set ds. \<exists>k\<in>set items. item_prodId k = p})"
  using ok
proof (induction items arbitrary: st)
  case Nil
  then show ?case by simp
next
  case (Cons item items)
  show ?case
  proof (cases "decomposeSKU_item data sk item st")
    case (Inl err)
    then show ?thesis using Cons.prems by simp
  next
    case (Inr st')
    note step = decomposeSKU_item_step[OF d Inr Cons.prems]
    note ih = Cons.IH[OF step(1)]
    let ?ids = "product_id ` set ds"
    let ?rest = "decomposeSKU_loop data sk items st'"
    have loop: "decomposeSKU_loop data sk (item # items) st = ?rest"
      using Inr by simp
    have ih_products: "products_ok ds (allProducts (fst ?rest))"
      using ih by (rule conjunct1)
    have ih_details: "fst ` set (allDetails (fst ?rest)) \<subseteq>
                      fst ` set (allDetails st') \<union> {k \<in> set items. item_prodId k \<in> ?ids}"
      using ih by (rule conjunct2[THEN conjunct1])
    have ih_keys: "snd ?rest = None \<longrightarrow>
                   fst ` set (allProducts (fst ?rest)) =
                     fst ` set (allProducts st') \<union>
                     js_string ` {p \<in> ?ids. \<exists>k\<in>set items. item_prodId k = p}"
      using ih by (rule conjunct2[THEN conjunct2])
    have here: "(if item_prodId item \<in> ?ids then {item} else {}) \<subseteq>
                {k \<in> set (item # items). item_prodId k \<in> ?ids}"
      by simp
    have later: "{k \<in> set items. item_prodId k \<in> ?ids} \<subseteq>
                 {k \<in> set (item # items). item_prodId k \<in> ?ids}"
      by auto
    have details: "fst ` set (allDetails (fst ?rest)) \<subseteq>
                   fst ` set (allDetails st) \<union> {k \<in> set (item # items). item_prodId k \<in> ?ids}"
      by (rule subset_chain[OF ih_details step(3) here later])
    have ids: "js_string ` {p \<in> ?ids. \<exists>k\<in>set (item # items). item_prodId k = p} =
               (if item_prodId item \<in> ?ids then {js_string (item_prodId item)} else {}) \<union>
               js_string ` {p \<in> ?ids. \<exists>k\<in>set items. item_prodId k = p}"
      by auto
    have keys: "snd ?rest = None \<longrightarrow>
                fst ` set (allProducts (fst ?rest)) =
                  fst ` set (allProducts st) \<union>
                  js_string ` {p \<in> ?ids. \<exists>k\<in>set (item # items). item_prodId k = p}"
      using ih_keys unfolding ids step(2) by (simp only: Un_assoc)
    show ?thesis
      unfolding loop by (intro conjI ih_products details keys)
  qed
qed

lemma products_ok_Nil: "products_ok ds []"
  by (simp add: products_ok_def)

lemma products_ok_length:
  assumes "products_ok ds ps"
  shows "length ps \<le> card (product_id ` set ds)"
proof -
  have "length ps = card (set (map fst ps))"
    using assms by (simp add: products_ok_def distinct_card del: set_map)
  also have "set (map fst ps) \<subseteq> js_string ` (product_id ` set ds)"
    using assms by (auto simp: products_ok_def list_all_iff)
  then have "card (set (map fst ps)) \<le> card (js_string ` (product_id ` set ds))"
    by (intro card_mono) simp_all
  also have "\<dots> \<le> card (product_id ` set ds)"
    by (intro card_image_le) simp
  finally show ?thesis .
qed

lemma products_ok_ids:
  assumes "products_ok ds ps"
  shows "distinct (map (\<lambda>kp. productId (snd kp)) ps)"
proof -
  have "map fst ps = map js_string (map (\<lambda>kp. productId (snd kp)) ps)"
    using assms by (auto simp: products_ok_def list_all_iff)
  moreover have "distinct (map fst ps)"
    using assms by (simp add: products_ok_def)
  ultimately have "distinct (map js_string (map (\<lambda>kp. productId (snd kp)) ps))"
    by (simp only:)
  then show ?thesis by (rule distinct_map[THEN iffD1, THEN conjunct1])
qed

text \<open>
  Claim C8, as the code has it. A pass over a document list with \<open>N\<close> distinct product
  ids leaves at most \<open>N\<close> products, never more: every key once, every product id once,
  however many item keys name it; and when the pass ends without an exception the keys are
  those of the product ids that an item key names and a document has.
\<close>

theorem product_map_at_most_one_per_id:
  assumes "explain data = Some sk" and "docs data = Some ds"
  shows "distinct (map fst (allProducts (fst (decomposeSKU data st)))) \<and>
         distinct (map (\<lambda>kp. productId (snd kp)) (allProducts (fst (decomposeSKU data st)))) \<and>
         length (allProducts (fst (decomposeSKU data st))) \<le> card (product_id ` set ds) \<and>
         (snd (decomposeSKU data st) = None \<longrightarrow>
            fst ` set (allProducts (fst (decomposeSKU data st))) =
              js_string ` {p \<in> product_id ` set ds. \<exists>k\<in>fst ` set sk. item_prodId k = p})"
proof -
  let ?st0 = "\<lparr>allProducts = [], allDetails = []\<rparr>"
  have run: "decomposeSKU data st = decomposeSKU_loop data sk (map fst sk) ?st0"
    using assms(1) by (auto simp: decomposeSKU_def explain_def split: option.splits)
  have ok0: "products_ok ds (allProducts ?st0)"
    by (simp add: products_ok_Nil)
  note inv = decomposeSKU_loop_inv[OF assms(2) ok0, of sk "map fst sk"]
  have ok: "products_ok ds (allProducts (fst (decomposeSKU data st)))"
    unfolding run using inv by blast
  have keys: "snd (decomposeSKU data st) = None \<longrightarrow>
            fst ` set (allProducts (fst (decomposeSKU data st))) =
              js_string ` {p \<in> product_id ` set ds. \<exists>k\<in>fst ` set sk. item_prodId k = p}"
    unfolding run using inv by simp
  show ?thesis
    using ok keys products_ok_length[OF ok] products_ok_ids[OF ok]
    by (simp add: products_ok_def)
qed


text \<open>The theorem on the example response: one product, for two documents and three item keys.\<close>

theorem product_map_at_most_one_per_id_witness:
  "explain example_response = Some example_explain \<and>
   docs example_response = Some example_docs \<and>
   snd (decomposeSKU example_response empty_store) = None \<and>
   distinct (map fst (allProducts (fst (decomposeSKU example_response empty_store)))) \<and>
   distinct (map (\<lambda>kp. productId (snd kp)) (allProducts (fst (decomposeSKU example_response empty_store)))) \<and>
   length (allProducts (fst (decomposeSKU example_response empty_store)))
     \<le> card (product_id ` set example_docs) \<and>
   fst ` set (allProducts (fst (decomposeSKU example_response empty_store))) =
     js_string ` {p \<in> product_id ` set example_docs. \<exists>k\<in>fst ` set example_explain. item_prodId k = p}"
proof -
  have e: "explain example_response = Some example_explain"
    by (simp add: example_response_def explain_def)
  have d: "docs example_response = Some example_docs"
    by (simp add: example_response_def)
  have n: "snd (decomposeSKU example_response empty_store) = None"
    by code_simp
  show ?thesis
    using e d n product_map_at_most_one_per_id[OF e d, of empty_store]
    by blast
qed

text \<open>
  Claim C8 as stated fails: the documents of the example have two distinct product ids,
  the product map has one entry, since no item key names the product \<^verbatim>\<open>P3\<close>.
\<close>

theorem fewer_products_than_ids:
  "card (product_id ` set example_docs) = 2 \<and>
   map fst (allProducts (fst (decomposeSKU example_response empty_store))) = [''P2'']"
  by code_simp

text \<open>An item that no document matches.\<close>

lemma unmatched_item_step:
  assumes "docs data = Some ds" and "\<forall>d\<in>set ds. product_id d \<noteq> item_prodId item"
      and "item \<in> fst ` set sk"
  shows "decomposeSKU_item data sk item st = Inr st"
proof -
  obtain e where "map_of sk item = Some e"
    using assms(3) by (cases "map_of sk item") (auto simp: map_of_None_iff)
  moreover have "setData data (item_prodId item) (JStr (item_skuId item)) = Inr None"
    using assms(1,2) by (simp add: setData_def setData_docs_None_iff)
  ultimately show ?thesis
    by (simp add: decomposeSKU_item_def Let_def)
qed

lemma map_of_filter_key:
  "k \<noteq> item \<Longrightarrow> map_of (filter (\<lambda>kv. fst kv \<noteq> item) sk) k = map_of sk k"
  by (induction sk) auto

lemma decomposeSKU_item_cong:
  assumes "map_of sk k = map_of sk' k" and "docs data = docs data'"
  shows "decomposeSKU_item data sk k st = decomposeSKU_item data' sk' k st"
  unfolding decomposeSKU_item_def setData_def assms by (rule refl)

lemma decomposeSKU_loop_skip:
  assumes skip: "\<And>st. decomposeSKU_item data sk item st = Inr st"
      and same: "docs data' = docs data"
  shows "decomposeSKU_loop data sk items st =
         decomposeSKU_loop data' (filter (\<lambda>kv. fst kv \<noteq> item) sk) (filter (\<lambda>k. k \<noteq> item) items) st"
proof (induction items arbitrary: st)
  case Nil
  then show ?case by simp
next
  case (Cons k items)
  show ?case
  proof (cases "k = item")
    case True
    then show ?thesis using Cons.IH skip by simp
  next
    case False
    have "decomposeSKU_item data sk k st =
          decomposeSKU_item data' (filter (\<lambda>kv. fst kv \<noteq> item) sk) k st"
      using map_of_filter_key[OF False, of sk] same
      by (intro decomposeSKU_item_cong) simp_all
    then show ?thesis using False Cons.IH by (simp split: sum.splits)
  qed
qed

text \<open>
  Claim C5. An item key whose product id no document has: its step of the loop returns
  without an exception and leaves both stores as they are, so the pass is the pass over the
  other keys; afterwards the item has no records and no product carries its product id.
\<close>

theorem unmatched_item_dropped:
  assumes "explain data = Some sk" and "docs data = Some ds"
      and "item \<in> fst ` set sk"
      and "\<forall>d\<in>set ds. product_id d \<noteq> item_prodId item"
  shows "decomposeSKU_item data sk item st' = Inr st' \<and>
         decomposeSKU data st =
           decomposeSKU
             (data\<lparr>debug := Some \<lparr>debug_explain = Some (filter (\<lambda>kv. fst kv \<noteq> item) sk)\<rparr>\<rparr>)
             st \<and>
         map_of (allDetails (fst (decomposeSKU data st))) item = None \<and>
         list_all (\<lambda>kp. productId (snd kp) \<noteq> item_prodId item)
           (allProducts (fst (decomposeSKU data st)))"
proof -
  let ?st0 = "\<lparr>allProducts = [], allDetails = []\<rparr>"
  let ?data' = "data\<lparr>debug := Some \<lparr>debug_explain = Some (filter (\<lambda>kv. fst kv \<noteq> item) sk)\<rparr>\<rparr>"
  have step: "decomposeSKU_item data sk item s = Inr s" for s
    using unmatched_item_step[OF assms(2,4,3)] .
  have run: "decomposeSKU data st = decomposeSKU_loop data sk (map fst sk) ?st0"
    using assms(1) by (auto simp: decomposeSKU_def explain_def split: option.splits)
  have keys: "map fst (filter (\<lambda>kv. fst kv \<noteq> item) sk) = filter (\<lambda>k. k \<noteq> item) (map fst sk)"
    by (simp add: filter_map o_def)
  have "decomposeSKU ?data' st =
        decomposeSKU_loop ?data' (filter (\<lambda>kv. fst kv \<noteq> item) sk) (filter (\<lambda>k. k \<noteq> item) (map fst sk)) ?st0"
    by (simp add: decomposeSKU_def keys)
  also have "\<dots> = decomposeSKU_loop data sk (map fst sk) ?st0"
    by (rule decomposeSKU_loop_skip[symmetric]) (simp_all add: step)
  finally have same: "decomposeSKU data st = decomposeSKU ?data' st"
    using run by simp
  have ok0: "products_ok ds (allProducts ?st0)"
    by (simp add: products_ok_Nil)
  note inv = decomposeSKU_loop_inv[OF assms(2) ok0, of sk "map fst sk"]
  have sub: "fst ` set (allDetails (fst (decomposeSKU data st))) \<subseteq>
               {k \<in> set (map fst sk). item_prodId k \<in> product_id ` set ds}"
    unfolding run using inv by simp
  have "item_prodId item \<notin> product_id ` set ds"
    using assms(4) by auto
  then have "item \<notin> fst ` set (allDetails (fst (decomposeSKU data st)))"
    using sub by blast
  then have details: "map_of (allDetails (fst (decomposeSKU data st))) item = None"
    by (simp add: map_of_None_iff)
  have "products_ok ds (allProducts (fst (decomposeSKU data st)))"
    unfolding run using inv by blast
  then have "\<forall>kp\<in>set (allProducts (fst (decomposeSKU data st))).
               productId (snd kp) \<in> product_id ` set ds"
    by (simp add: products_ok_def list_all_iff)
  then have products: "list_all (\<lambda>kp. productId (snd kp) \<noteq> item_prodId item)
           (allProducts (fst (decomposeSKU data st)))"
    unfolding list_all_iff using \<open>item_prodId item \<notin> product_id ` set ds\<close> by metis
  show ?thesis
    using step same details products by simp
qed

text \<open>The theorem on the example response and the item of the product \<^verbatim>\<open>P1\<close>.\<close>

theorem unmatched_item_dropped_witness:
  "explain example_response = Some example_explain \<and>
   docs example_response = Some example_docs \<and>
   ''A1_P1'' \<in> fst ` set example_explain \<and>
   item_prodId ''A1_P1'' = JStr ''P1'' \<and>
   map product_id example_docs = [JStr ''P2'', JStr ''P3''] \<and>
   decomposeSKU_item example_response example_explain ''A1_P1'' stale_store = Inr stale_store \<and>
   decomposeSKU example_response empty_store =
     decomposeSKU
       (example_response
          \<lparr>debug := Some \<lparr>debug_explain = Some (filter (\<lambda>kv. fst kv \<noteq> ''A1_P1'') example_explain)\<rparr>\<rparr>)
       empty_store \<and>
   map_of (allDetails (fst (decomposeSKU example_response empty_store))) ''A1_P1'' = None \<and>
   list_all (\<lambda>kp. productId (snd kp) \<noteq> item_prodId ''A1_P1'')
     (allProducts (fst (decomposeSKU example_response empty_store)))"
proof -
  have e: "explain example_response = Some example_explain"
    by (simp add: example_response_def explain_def)
  have d: "docs example_response = Some example_docs"
    by (simp add: example_response_def)
  have k: "''A1_P1'' \<in> fst ` set example_explain"
    by (simp add: example_explain_def)
  have p: "item_prodId ''A1_P1'' = JStr ''P1''"
    by (simp add: item_prodId_def at_index_def)
  have ids: "map product_id example_docs = [JStr ''P2'', JStr ''P3'']"
    by (simp add: example_docs_def)
  have u: "\<forall>d\<in>set example_docs. product_id d \<noteq> item_prodId ''A1_P1''"
    unfolding p by (simp add: example_docs_def)
  show ?thesis
    using e d k p ids unmatched_item_dropped[OF e d k u, of stale_store empty_store]
    by blast
qed

subsection \<open>A new query\<close>

text \<open>
  A query whose response has its \<^verbatim>\<open>debug\<close> empties the product map and the record store
  before it writes to them, and building the cards empties the checklist first: what the
  three hold afterwards is what they hold when the query runs on an empty page.
\<close>

lemma query_with_debug_rebuilds:
  assumes "debug data = Some info"
  shows "new_query finds data (st, boxes) = new_query finds data (empty_store, [])"
  using assms
  by (simp add: new_query_def decomposeSKU_def buildInterface_def empty_store_def
      split: option.splits)

text \<open>
  Claim C9 on a response without \<^verbatim>\<open>debug\<close>, after a query that left the product
  \<^verbatim>\<open>P9\<close>. The read of \<^verbatim>\<open>data["debug"]["explain"]\<close> raises before the two variables
  are reset, so \<^verbatim>\<open>decomposeSKU\<close> leaves the product and the records of the earlier query
  in place, and \<^verbatim>\<open>buildInterface\<close>, which runs all the same, empties the checklist and
  fills it again from those records: after the new query the three stores hold entries of
  the previous one.
\<close>

theorem failed_query_keeps_previous_entries:
  "decomposeSKU response_without_debug stale_store = (stale_store, Some TypeError) \<and>
   buildInterface finds_every_section stale_store [] = Some [''check-big-boost-7''] \<and>
   new_query finds_every_section response_without_debug (stale_store, [''check-big-boost-7''])
     = Some (stale_store, [''check-big-boost-7''])"
  by code_simp

end
